theory Spec2Isabelle
  imports Main "HOL-Library.Word"
begin

section \<open>Data model\<close>

text \<open>
  The engine and the evaluator of the repository work on a board, pieces, positions and
  moves whose classes (board.h, piece.h, move.h) are collaborators.  Their data is modelled
  here as the code uses it: a colour and a piece type are enumerations, a piece is the
  empty marker or a type with a colour, a position is a file and a rank (both C++
  \<open>int\<close>, small enough that no overflow occurs), a move has a source and a destination.
\<close>

datatype Color = WHITE | BLACK

datatype PieceType = PAWN | KNIGHT | BISHOP | ROOK | QUEEN | KING

datatype Piece = NoPiece | Pc PieceType Color

datatype Position = Position (pfile: int) (prank: int)

datatype Move = Move (mfrom: Position) (mto: Position)

definition isValid :: "Position \<Rightarrow> bool" where
  "isValid pos \<longleftrightarrow> 0 \<le> pfile pos \<and> pfile pos < 8 \<and> 0 \<le> prank pos \<and> prank pos < 8"

definition isEmpty :: "Piece \<Rightarrow> bool" where
  "isEmpty p \<longleftrightarrow> p = NoPiece"

definition opposite :: "Color \<Rightarrow> Color" where
  "opposite c = (if c = WHITE then BLACK else WHITE)"

text \<open>
  The board collaborator.  Its code is not part of the sources, so every query the engine
  and the evaluator make is a field of this record, taken as a parameter: a board value of
  type \<open>'b\<close> is opaque.  \<open>getValue\<close> is the piece's material value, \<open>toAlgebraic\<close>
  the move's display form, \<open>nullMove\<close> the default-constructed \<open>Move()\<close> and
  \<open>toMillis\<close> the cast of a clock difference to milliseconds.
\<close>

record 'b Collab =
  getPiece :: "'b \<Rightarrow> Position \<Rightarrow> Piece"
  isUnderAttack :: "'b \<Rightarrow> Position \<Rightarrow> Color \<Rightarrow> bool"
  generatePseudoLegalMoves :: "'b \<Rightarrow> Position \<Rightarrow> Move list"
  generateLegalMoves :: "'b \<Rightarrow> Move list"
  makeMove :: "'b \<Rightarrow> Move \<Rightarrow> 'b"
  isInCheck :: "'b \<Rightarrow> bool"
  getSideToMove :: "'b \<Rightarrow> Color"
  getValue :: "Piece \<Rightarrow> int"
  toAlgebraic :: "Move \<Rightarrow> string"
  nullMove :: Move
  toMillis :: "int \<Rightarrow> int"

section \<open>The evaluator (evaluate.cpp)\<close>

text \<open>
  Every term scans the board with \<open>for rank = 0..7, for file = 0..7\<close>: the squares in
  that order.
\<close>

definition allSquares :: "Position list" where
  "allSquares = concat (map (\<lambda>r. map (\<lambda>f. Position f r) [0..7]) [0..7])"

definition centerSquares :: "Position list" where
  "centerSquares = [Position 3 3, Position 3 4, Position 4 3, Position 4 4]"

subsection \<open>Material\<close>

definition materialAt :: "'b Collab \<Rightarrow> Piece \<Rightarrow> int" where
  "materialAt C piece =
     (case piece of
        NoPiece \<Rightarrow> 0
      | Pc t c \<Rightarrow> (if c = BLACK then - getValue C piece else getValue C piece))"

definition evaluateMaterial :: "'b Collab \<Rightarrow> 'b \<Rightarrow> int" where
  "evaluateMaterial C board =
     (\<Sum>pos\<leftarrow>allSquares. materialAt C (getPiece C board pos))"

subsection \<open>Piece placement: knights\<close>

definition isPawnOf :: "Color \<Rightarrow> Piece \<Rightarrow> bool" where
  "isPawnOf c p \<longleftrightarrow> \<not> isEmpty p \<and> p = Pc PAWN c"

text \<open>The three penalty branches of the knight scan, each for one \<open>fileOffset\<close>.\<close>

definition knightPushPenalty :: "'b Collab \<Rightarrow> 'b \<Rightarrow> Color \<Rightarrow> int \<Rightarrow> int \<Rightarrow> int \<Rightarrow> int" where
  "knightPushPenalty C board c f r fileOffset =
     (let enemyColor = opposite c;
          pawnDirection = (if enemyColor = WHITE then 1 else -1);
          pawnAttackPos = Position (f + fileOffset) (r - pawnDirection);
          pawnPos = Position (f + fileOffset) (r - pawnDirection - pawnDirection)
      in if isValid pawnPos \<and> isValid pawnAttackPos then
           if isPawnOf enemyColor (getPiece C board pawnPos) then
             if isEmpty (getPiece C board pawnAttackPos) then
               if \<not> isUnderAttack C board pawnAttackPos c then 15 else 0
             else 0
           else 0
         else 0)"

definition knightAdjacentPenalty :: "'b Collab \<Rightarrow> 'b \<Rightarrow> Color \<Rightarrow> int \<Rightarrow> int \<Rightarrow> int \<Rightarrow> int" where
  "knightAdjacentPenalty C board c f r fileOffset =
     (let enemyColor = opposite c;
          pawnDirection = (if enemyColor = WHITE then 1 else -1);
          adjacentPawnPos = Position (f + fileOffset) (r - pawnDirection)
      in if isValid adjacentPawnPos then
           if isPawnOf enemyColor (getPiece C board adjacentPawnPos) then 25 else 0
         else 0)"

definition knightReadyPenalty :: "'b Collab \<Rightarrow> 'b \<Rightarrow> Color \<Rightarrow> int \<Rightarrow> int \<Rightarrow> int \<Rightarrow> int" where
  "knightReadyPenalty C board c f r fileOffset =
     (let enemyColor = opposite c;
          pawnDirection = (if enemyColor = WHITE then 1 else -1);
          readyPawnPos = Position (f + fileOffset) r;
          readyAttackPos = Position (f + fileOffset) (r + pawnDirection)
      in if isValid readyPawnPos \<and> isValid readyAttackPos then
           if isPawnOf enemyColor (getPiece C board readyPawnPos) then
             if isEmpty (getPiece C board readyAttackPos) then 20 else 0
           else 0
         else 0)"

definition knightPositionBonus :: "int \<Rightarrow> int \<Rightarrow> int" where
  "knightPositionBonus f r =
     (let fileDistFromCenter = min \<bar>f - 3\<bar> \<bar>f - 4\<bar>;
          rankDistFromCenter = min \<bar>r - 3\<bar> \<bar>r - 4\<bar>;
          distFromCenter = fileDistFromCenter + rankDistFromCenter;
          positionBonus = 3 - distFromCenter
      in if positionBonus < 0 then 0 else positionBonus)"

text \<open>
  The body of the scan for one square: a white knight adds its bonus and subtracts every
  penalty, a black knight the opposite.
\<close>

definition knightTerm :: "'b Collab \<Rightarrow> 'b \<Rightarrow> Position \<Rightarrow> int" where
  "knightTerm C board pos =
     (case getPiece C board pos of
        Pc KNIGHT c \<Rightarrow>
          (let f = pfile pos; r = prank pos;
               penalties =
                 (\<Sum>fileOffset\<leftarrow>[-1, 1].
                     knightPushPenalty C board c f r fileOffset
                   + knightAdjacentPenalty C board c f r fileOffset)
               + (\<Sum>fileOffset\<leftarrow>[-1, 1]. knightReadyPenalty C board c f r fileOffset)
           in if c = WHITE then knightPositionBonus f r - penalties
              else - knightPositionBonus f r + penalties)
      | _ \<Rightarrow> 0)"

definition evaluatePiecePositions :: "'b Collab \<Rightarrow> 'b \<Rightarrow> int" where
  "evaluatePiecePositions C board = (\<Sum>pos\<leftarrow>allSquares. knightTerm C board pos)"

subsection \<open>Center control\<close>

text \<open>
  The count of pieces other than pawns and kings that are off their starting rank; the
  same loop opens \<open>evaluateCenterControl\<close> and \<open>evaluateEarlyFPawnMoves\<close>.
\<close>

definition developedOffRank :: "Position \<Rightarrow> Piece \<Rightarrow> bool" where
  "developedOffRank pos piece =
     (case piece of
        NoPiece \<Rightarrow> False
      | Pc t c \<Rightarrow> t \<noteq> PAWN \<and> t \<noteq> KING
          \<and> ((c = WHITE \<and> prank pos > 0) \<or> (c = BLACK \<and> prank pos < 7)))"

definition countDevelopedOffRank :: "'b Collab \<Rightarrow> 'b \<Rightarrow> int" where
  "countDevelopedOffRank C board =
     int (length (filter (\<lambda>pos. developedOffRank pos (getPiece C board pos)) allSquares))"

definition centerOccupancy :: "'b Collab \<Rightarrow> 'b \<Rightarrow> bool \<Rightarrow> Position \<Rightarrow> int" where
  "centerOccupancy C board isOpening pos =
     (case getPiece C board pos of
        NoPiece \<Rightarrow> 0
      | Pc t c \<Rightarrow>
          (let bonus = (if t = PAWN then 20 else 10);
               bonus = (if isOpening then bonus * 2 else bonus)
           in (if c = WHITE then bonus else - bonus)
              + (if isUnderAttack C board pos (if c = WHITE then BLACK else WHITE)
                 then (if c = WHITE then - 5 else 5) else 0)))"

definition centerAttack :: "'b Collab \<Rightarrow> 'b \<Rightarrow> bool \<Rightarrow> Position \<Rightarrow> int" where
  "centerAttack C board isOpening pos =
     (if isUnderAttack C board pos WHITE then (if isOpening then 15 else 5) else 0)
     - (if isUnderAttack C board pos BLACK then (if isOpening then 15 else 5) else 0)"

definition evaluateCenterControl :: "'b Collab \<Rightarrow> 'b \<Rightarrow> int" where
  "evaluateCenterControl C board =
     (let isOpening = (countDevelopedOffRank C board < 7)
      in (\<Sum>pos\<leftarrow>centerSquares. centerOccupancy C board isOpening pos)
         + (\<Sum>pos\<leftarrow>centerSquares. centerAttack C board isOpening pos))"

subsection \<open>Placeholders\<close>

definition evaluateMobility :: "'b Collab \<Rightarrow> 'b \<Rightarrow> int" where
  "evaluateMobility C board = 0"

definition evaluatePawnStructure :: "'b Collab \<Rightarrow> 'b \<Rightarrow> int" where
  "evaluatePawnStructure C board = 0"

definition evaluateKingSafety :: "'b Collab \<Rightarrow> 'b \<Rightarrow> int" where
  "evaluateKingSafety C board = 0"

subsection \<open>Early queen development\<close>

definition queenTerm :: "Position \<Rightarrow> Piece \<Rightarrow> int" where
  "queenTerm pos piece =
     (case piece of
        Pc QUEEN c \<Rightarrow>
          (if c = WHITE then
             (if pos \<noteq> Position 3 0
              then - 15 - (\<bar>pfile pos - 3\<bar> + \<bar>prank pos - 0\<bar>) * 2 else 0)
           else
             (if pos \<noteq> Position 3 7
              then 15 + (\<bar>pfile pos - 3\<bar> + \<bar>prank pos - 7\<bar>) * 2 else 0))
      | _ \<Rightarrow> 0)"

definition evaluateEarlyQueenDevelopment :: "'b Collab \<Rightarrow> 'b \<Rightarrow> int" where
  "evaluateEarlyQueenDevelopment C board =
     (\<Sum>pos\<leftarrow>allSquares. queenTerm pos (getPiece C board pos))"

subsection \<open>Piece development\<close>

definition whiteKnightStartPos :: "Position list" where
  "whiteKnightStartPos = [Position 1 0, Position 6 0]"

definition whiteBishopStartPos :: "Position list" where
  "whiteBishopStartPos = [Position 2 0, Position 5 0]"

definition whiteRookStartPos :: "Position list" where
  "whiteRookStartPos = [Position 0 0, Position 7 0]"

definition blackKnightStartPos :: "Position list" where
  "blackKnightStartPos = [Position 1 7, Position 6 7]"

definition blackBishopStartPos :: "Position list" where
  "blackBishopStartPos = [Position 2 7, Position 5 7]"

definition blackRookStartPos :: "Position list" where
  "blackRookStartPos = [Position 0 7, Position 7 7]"

definition goodWhiteKnightSquares :: "Position list" where
  "goodWhiteKnightSquares = [Position 2 2, Position 5 2, Position 3 2, Position 4 2]"

definition goodBlackKnightSquares :: "Position list" where
  "goodBlackKnightSquares = [Position 2 5, Position 5 5, Position 3 5, Position 4 5]"

definition goodWhiteBishopSquares :: "Position list" where
  "goodWhiteBishopSquares =
     [Position 2 2, Position 5 2, Position 3 1, Position 4 1, Position 1 2, Position 6 2]"

definition goodBlackBishopSquares :: "Position list" where
  "goodBlackBishopSquares =
     [Position 2 5, Position 5 5, Position 3 6, Position 4 6, Position 1 5, Position 6 5]"

text \<open>First pass: undeveloped minor pieces of each side, and whether a pawn is attacked.\<close>

definition whiteUndeveloped :: "Position \<Rightarrow> Piece \<Rightarrow> bool" where
  "whiteUndeveloped pos piece \<longleftrightarrow>
     (piece = Pc KNIGHT WHITE \<and> pos \<in> set whiteKnightStartPos)
     \<or> (piece = Pc BISHOP WHITE \<and> pos \<in> set whiteBishopStartPos)"

definition blackUndeveloped :: "Position \<Rightarrow> Piece \<Rightarrow> bool" where
  "blackUndeveloped pos piece \<longleftrightarrow>
     (piece = Pc KNIGHT BLACK \<and> pos \<in> set blackKnightStartPos)
     \<or> (piece = Pc BISHOP BLACK \<and> pos \<in> set blackBishopStartPos)"

definition whitePawnsUnderAttack :: "'b Collab \<Rightarrow> 'b \<Rightarrow> bool" where
  "whitePawnsUnderAttack C board =
     list_ex (\<lambda>pos. getPiece C board pos = Pc PAWN WHITE \<and> isUnderAttack C board pos BLACK)
       allSquares"

definition blackPawnsUnderAttack :: "'b Collab \<Rightarrow> 'b \<Rightarrow> bool" where
  "blackPawnsUnderAttack C board =
     list_ex (\<lambda>pos. getPiece C board pos = Pc PAWN BLACK \<and> isUnderAttack C board pos WHITE)
       allSquares"

text \<open>Second pass, for one square.\<close>

definition developmentAt :: "'b Collab \<Rightarrow> 'b \<Rightarrow> bool \<Rightarrow> bool \<Rightarrow> Position \<Rightarrow> int" where
  "developmentAt C board wAttacked bAttacked pos =
     (case getPiece C board pos of
        NoPiece \<Rightarrow> 0
      | Pc t c \<Rightarrow>
          (let underAttack =
                 (if c = WHITE then isUnderAttack C board pos BLACK
                  else isUnderAttack C board pos WHITE)
           in if t = KNIGHT then
                (if c = WHITE then
                   (if pos \<notin> set whiteKnightStartPos then
                      (if pos \<in> set goodWhiteKnightSquares
                       then 50 + (if wAttacked then 30 else 0)
                       else if \<not> underAttack then - 20 else 0)
                    else 0)
                 else
                   (if pos \<notin> set blackKnightStartPos then
                      (if pos \<in> set goodBlackKnightSquares
                       then - 50 - (if bAttacked then 30 else 0)
                       else if \<not> underAttack then 20 else 0)
                    else 0))
              else if t = BISHOP then
                (if c = WHITE then
                   (if pos \<notin> set whiteBishopStartPos then
                      (if pos \<in> set goodWhiteBishopSquares
                       then 45 + (if wAttacked then 30 else 0)
                       else if \<not> underAttack then - 20 else 0)
                    else 0)
                 else
                   (if pos \<notin> set blackBishopStartPos then
                      (if pos \<in> set goodBlackBishopSquares
                       then - 45 - (if bAttacked then 30 else 0)
                       else if \<not> underAttack then 20 else 0)
                    else 0))
              else if t = ROOK then
                (if c = WHITE then
                   (if pos \<notin> set whiteRookStartPos \<and> \<not> underAttack then - 15 else 0)
                 else
                   (if pos \<notin> set blackRookStartPos \<and> \<not> underAttack then 15 else 0))
              else 0))"

definition evaluatePieceDevelopment :: "'b Collab \<Rightarrow> 'b \<Rightarrow> int" where
  "evaluatePieceDevelopment C board =
     (let whiteUndevelopedMinorPieces =
            int (length (filter (\<lambda>pos. whiteUndeveloped pos (getPiece C board pos)) allSquares));
          blackUndevelopedMinorPieces =
            int (length (filter (\<lambda>pos. blackUndeveloped pos (getPiece C board pos)) allSquares));
          wAttacked = whitePawnsUnderAttack C board;
          bAttacked = blackPawnsUnderAttack C board
      in - (whiteUndevelopedMinorPieces * (if wAttacked then 80 else 40))
         + blackUndevelopedMinorPieces * (if bAttacked then 80 else 40)
         + (\<Sum>pos\<leftarrow>allSquares. developmentAt C board wAttacked bAttacked pos))"

subsection \<open>King-dependent terms, with the board queries they make\<close>

text \<open>
  The three terms that look for a king return their score together with the positions
  they pass to \<open>getPiece\<close>, in the order of the calls, so that a query off the board
  would show.  A full scan asks for every square once and adds what its body returns.
\<close>

definition scanBoard ::
  "'b Collab \<Rightarrow> 'b \<Rightarrow> (Position \<Rightarrow> Piece \<Rightarrow> int \<times> Position list) \<Rightarrow> int \<times> Position list"
where
  "scanBoard C board body =
     ((\<Sum>pos\<leftarrow>allSquares. fst (body pos (getPiece C board pos))),
      concat (map (\<lambda>pos. pos # snd (body pos (getPiece C board pos))) allSquares))"

definition earlyKingAt :: "Position \<Rightarrow> Piece \<Rightarrow> int \<times> Position list" where
  "earlyKingAt pos piece =
     (case piece of
        Pc KING c \<Rightarrow>
          (if c = WHITE then
             (if pos \<noteq> Position 4 0 \<and> prank pos > 0
              then (- 50 - prank pos * 10, []) else (0, []))
           else
             (if pos \<noteq> Position 4 7 \<and> prank pos < 7
              then (50 + (7 - prank pos) * 10, []) else (0, [])))
      | _ \<Rightarrow> (0, []))"

definition evaluateEarlyKingMovement :: "'b Collab \<Rightarrow> 'b \<Rightarrow> int \<times> Position list" where
  "evaluateEarlyKingMovement C board = scanBoard C board earlyKingAt"

definition castlingAt :: "'b Collab \<Rightarrow> 'b \<Rightarrow> Position \<Rightarrow> Piece \<Rightarrow> int \<times> Position list" where
  "castlingAt C board pos piece =
     (case piece of
        Pc KING c \<Rightarrow>
          (if c = WHITE then
             (if pos = Position 6 0 then (40, [])
              else if pos = Position 2 0 then (40, [])
              else if pos = Position 4 0 then
                (let kingsideRook = getPiece C board (Position 7 0);
                     queensideRook = getPiece C board (Position 0 0)
                 in ((if kingsideRook = Pc ROOK WHITE then 15 else 0)
                     + (if queensideRook = Pc ROOK WHITE then 10 else 0),
                     [Position 7 0, Position 0 0]))
              else (0, []))
           else
             (if pos = Position 6 7 then (- 40, [])
              else if pos = Position 2 7 then (- 40, [])
              else if pos = Position 4 7 then
                (let kingsideRook = getPiece C board (Position 7 7);
                     queensideRook = getPiece C board (Position 0 7)
                 in (- (if kingsideRook = Pc ROOK BLACK then 15 else 0)
                     - (if queensideRook = Pc ROOK BLACK then 10 else 0),
                     [Position 7 7, Position 0 7]))
              else (0, [])))
      | _ \<Rightarrow> (0, []))"

definition evaluateCastling :: "'b Collab \<Rightarrow> 'b \<Rightarrow> int \<times> Position list" where
  "evaluateCastling C board = scanBoard C board (castlingAt C board)"

text \<open>
  The count of developed pieces by home square; the same loop opens
  \<open>evaluateUndefendedPawns\<close>, \<open>evaluateKingPawnShield\<close> and
  \<open>evaluateMinorPieceDevelopmentForDefense\<close>.
\<close>

definition developedOffHome :: "Position \<Rightarrow> Piece \<Rightarrow> bool" where
  "developedOffHome pos piece =
     (case piece of
        NoPiece \<Rightarrow> False
      | Pc t c \<Rightarrow>
          t \<noteq> PAWN \<and> t \<noteq> KING \<and>
          (if t = KNIGHT then
             (c = WHITE \<and> (pfile pos \<noteq> 1 \<and> pfile pos \<noteq> 6))
             \<or> (c = BLACK \<and> (pfile pos \<noteq> 1 \<and> pfile pos \<noteq> 6))
           else if t = BISHOP then
             (c = WHITE \<and> prank pos \<noteq> 0) \<or> (c = BLACK \<and> prank pos \<noteq> 7)
           else if t = ROOK then
             (c = WHITE \<and> prank pos \<noteq> 0) \<or> (c = BLACK \<and> prank pos \<noteq> 7)
           else if t = QUEEN then
             (c = WHITE \<and> (pfile pos \<noteq> 3 \<or> prank pos \<noteq> 0))
             \<or> (c = BLACK \<and> (pfile pos \<noteq> 3 \<or> prank pos \<noteq> 7))
           else False))"

definition countDevelopedOffHome :: "'b Collab \<Rightarrow> 'b \<Rightarrow> int" where
  "countDevelopedOffHome C board =
     int (length (filter (\<lambda>pos. developedOffHome pos (getPiece C board pos)) allSquares))"

text \<open>
  \<open>whiteKingPos\<close> and \<open>blackKingPos\<close> start at \<open>Position(-1, -1)\<close> and are overwritten
  at every king the scan meets.
\<close>

definition findKing :: "'b Collab \<Rightarrow> 'b \<Rightarrow> Color \<Rightarrow> Position" where
  "findKing C board c =
     foldl (\<lambda>kingPos pos. if getPiece C board pos = Pc KING c then pos else kingPos)
       (Position (- 1) (- 1)) allSquares"

definition shieldWhite :: "'b Collab \<Rightarrow> 'b \<Rightarrow> Position \<Rightarrow> int \<times> Position list" where
  "shieldWhite C board whiteKingPos =
     (if isValid whiteKingPos \<and> prank whiteKingPos = 0 \<and> pfile whiteKingPos = 6 then
        (if getPiece C board (Position 5 2) = Pc PAWN WHITE then
           (- 80
            + (\<Sum>attackRank\<leftarrow>[3..7].
                 (let filePiece = getPiece C board (Position 5 attackRank);
                      diagFile = (6::int)
                  in (if filePiece = Pc QUEEN BLACK \<or> filePiece = Pc ROOK BLACK
                      then - 50 else 0)
                     + (if diagFile \<ge> 0 \<and> diagFile < 8 \<and> attackRank - 2 = 0 then
                          (let diagPiece = getPiece C board (Position diagFile attackRank)
                           in if diagPiece = Pc QUEEN BLACK \<or> diagPiece = Pc BISHOP BLACK
                              then - 60 else 0)
                        else 0))),
            Position 5 2 #
            concat (map (\<lambda>attackRank.
                Position 5 attackRank #
                (if (6::int) \<ge> 0 \<and> (6::int) < 8 \<and> attackRank - 2 = 0
                 then [Position 6 attackRank] else [])) [3..7]))
         else (0, [Position 5 2]))
      else (0, []))"

definition shieldBlack :: "'b Collab \<Rightarrow> 'b \<Rightarrow> Position \<Rightarrow> int \<times> Position list" where
  "shieldBlack C board blackKingPos =
     (if isValid blackKingPos \<and> prank blackKingPos = 7 \<and> pfile blackKingPos = 6 then
        (if getPiece C board (Position 5 5) = Pc PAWN BLACK then
           (80
            + (\<Sum>attackRank\<leftarrow>rev [0..4].
                 (let filePiece = getPiece C board (Position 5 attackRank);
                      diagFile = (6::int)
                  in (if filePiece = Pc QUEEN WHITE \<or> filePiece = Pc ROOK WHITE
                      then 50 else 0)
                     + (if diagFile \<ge> 0 \<and> diagFile < 8 \<and> 7 - attackRank = 2 then
                          (let diagPiece = getPiece C board (Position diagFile attackRank)
                           in if diagPiece = Pc QUEEN WHITE \<or> diagPiece = Pc BISHOP WHITE
                              then 60 else 0)
                        else 0))),
            Position 5 5 #
            concat (map (\<lambda>attackRank.
                Position 5 attackRank #
                (if (6::int) \<ge> 0 \<and> (6::int) < 8 \<and> 7 - attackRank = 2
                 then [Position 6 attackRank] else [])) (rev [0..4])))
         else (0, [Position 5 5]))
      else (0, []))"

definition evaluateKingPawnShield :: "'b Collab \<Rightarrow> 'b \<Rightarrow> int \<times> Position list" where
  "evaluateKingPawnShield C board =
     (let developedPieces = countDevelopedOffHome C board
      in if developedPieces > 6 then (0, allSquares)
         else
           (let whiteKingPos = findKing C board WHITE;
                blackKingPos = findKing C board BLACK;
                w = shieldWhite C board whiteKingPos;
                b = shieldBlack C board blackKingPos
            in (fst w + fst b, allSquares @ allSquares @ snd w @ snd b)))"

subsection \<open>Pawn double moves\<close>

text \<open>
  Both inner loops run \<open>for rank = 0..7\<close> and stop at the first pawn of their colour
  on the file.
\<close>

definition controlsCenterWhite :: "Position \<Rightarrow> bool" where
  "controlsCenterWhite pos =
     list_ex (\<lambda>centerPos. \<bar>pfile pos - pfile centerPos\<bar> = 1
                \<and> prank centerPos = prank pos + 1) centerSquares"

definition controlsCenterBlack :: "Position \<Rightarrow> bool" where
  "controlsCenterBlack pos =
     list_ex (\<lambda>centerPos. \<bar>pfile pos - pfile centerPos\<bar> = 1
                \<and> prank centerPos = prank pos - 1) centerSquares"

definition whitePawnFile :: "'b Collab \<Rightarrow> 'b \<Rightarrow> int \<Rightarrow> int" where
  "whitePawnFile C board f =
     (case find (\<lambda>r. getPiece C board (Position f r) = Pc PAWN WHITE) [0..7] of
        None \<Rightarrow> 0
      | Some r \<Rightarrow>
          (let pos = Position f r; whitePawnRank = 1
           in if r > whitePawnRank \<and> r > whitePawnRank + 2 then
                (if \<not> isUnderAttack C board pos BLACK then
                   - 20
                   + (if f = 3 \<or> f = 4 then - 10 else 0)
                   + (if \<not> controlsCenterWhite pos \<and> (f = 2 \<or> f = 3 \<or> f = 4 \<or> f = 5)
                      then - 10 else 0)
                 else 0)
              else 0))"

definition blackPawnFile :: "'b Collab \<Rightarrow> 'b \<Rightarrow> int \<Rightarrow> int" where
  "blackPawnFile C board f =
     (case find (\<lambda>r. getPiece C board (Position f r) = Pc PAWN BLACK) [0..7] of
        None \<Rightarrow> 0
      | Some r \<Rightarrow>
          (let pos = Position f r; blackPawnRank = 6
           in if r < blackPawnRank \<and> r < blackPawnRank - 2 then
                (if \<not> isUnderAttack C board pos WHITE then
                   20
                   + (if f = 3 \<or> f = 4 then 10 else 0)
                   + (if \<not> controlsCenterBlack pos \<and> (f = 2 \<or> f = 3 \<or> f = 4 \<or> f = 5)
                      then 10 else 0)
                 else 0)
              else 0))"

definition pieceCount :: "'b Collab \<Rightarrow> 'b \<Rightarrow> int" where
  "pieceCount C board =
     int (length (filter (\<lambda>pos. \<not> isEmpty (getPiece C board pos)) allSquares))"

definition evaluatePawnDoubleMoves :: "'b Collab \<Rightarrow> 'b \<Rightarrow> int" where
  "evaluatePawnDoubleMoves C board =
     (if pieceCount C board < 28 then 0
      else (\<Sum>f\<leftarrow>[0..7]. whitePawnFile C board f + blackPawnFile C board f))"

subsection \<open>Undefended pawns and their potential defenders\<close>

definition isDefendingMove :: "Move \<Rightarrow> Position \<Rightarrow> bool" where
  "isDefendingMove move pawnPos =
     (let fileDiff = \<bar>pfile (mto move) - pfile pawnPos\<bar>;
          rankDiff = \<bar>prank (mto move) - prank pawnPos\<bar>
      in if fileDiff \<le> 1 \<and> rankDiff \<le> 1 then True
         else if (fileDiff = 1 \<and> rankDiff = 2) \<or> (fileDiff = 2 \<and> rankDiff = 1) then True
         else False)"

definition isCentralTarget :: "Move \<Rightarrow> bool" where
  "isCentralTarget move \<longleftrightarrow>
     (pfile (mto move) \<ge> 2 \<and> pfile (mto move) \<le> 5)
     \<and> (prank (mto move) \<ge> 2 \<and> prank (mto move) \<le> 5)"

definition defenderBonusAt ::
  "'b Collab \<Rightarrow> 'b \<Rightarrow> Position \<Rightarrow> Color \<Rightarrow> Position \<Rightarrow> int" where
  "defenderBonusAt C board pawnPos pawnColor piecePos =
     (case getPiece C board piecePos of
        NoPiece \<Rightarrow> 0
      | Pc t c \<Rightarrow>
          (if c \<noteq> pawnColor \<or> t = PAWN then 0
           else
             (case find (\<lambda>move. isDefendingMove move pawnPos
                           \<and> \<not> isUnderAttack C board (mto move)
                                 (if pawnColor = WHITE then BLACK else WHITE))
                     (generatePseudoLegalMoves C board piecePos) of
                None \<Rightarrow> 0
              | Some move \<Rightarrow>
                  (let pieceBonus =
                         (case t of KNIGHT \<Rightarrow> 70 | BISHOP \<Rightarrow> 65 | ROOK \<Rightarrow> 30
                                  | QUEEN \<Rightarrow> 10 | _ \<Rightarrow> 0);
                       isFromStartingPosition =
                         (if t = KNIGHT then
                            (pawnColor = WHITE \<and> prank piecePos = 0
                               \<and> (pfile piecePos = 1 \<or> pfile piecePos = 6))
                            \<or> (pawnColor = BLACK \<and> prank piecePos = 7
                               \<and> (pfile piecePos = 1 \<or> pfile piecePos = 6))
                          else if t = BISHOP then
                            (pawnColor = WHITE \<and> prank piecePos = 0
                               \<and> (pfile piecePos = 2 \<or> pfile piecePos = 5))
                            \<or> (pawnColor = BLACK \<and> prank piecePos = 7
                               \<and> (pfile piecePos = 2 \<or> pfile piecePos = 5))
                          else False)
                   in pieceBonus
                      + (if isFromStartingPosition then 40 else 0)
                      + (if isCentralTarget move then 25 else 0)))))"

definition evaluatePotentialDefenders :: "'b Collab \<Rightarrow> 'b \<Rightarrow> Position \<Rightarrow> Color \<Rightarrow> int" where
  "evaluatePotentialDefenders C board pawnPos pawnColor =
     (\<Sum>piecePos\<leftarrow>allSquares. defenderBonusAt C board pawnPos pawnColor piecePos)"

definition attackersOf :: "'b Collab \<Rightarrow> 'b \<Rightarrow> Position \<Rightarrow> Color \<Rightarrow> Position list" where
  "attackersOf C board pos enemyColor =
     filter (\<lambda>attackerPos.
        (case getPiece C board attackerPos of
           NoPiece \<Rightarrow> False
         | Pc t c \<Rightarrow> c = enemyColor
             \<and> list_ex (\<lambda>move. pfile (mto move) = pfile pos \<and> prank (mto move) = prank pos)
                  (generatePseudoLegalMoves C board attackerPos)))
       allSquares"

definition undefendedPawnAt :: "'b Collab \<Rightarrow> 'b \<Rightarrow> Position \<Rightarrow> int" where
  "undefendedPawnAt C board pos =
     (case getPiece C board pos of
        Pc PAWN pawnColor \<Rightarrow>
          (let enemyColor = (if pawnColor = WHITE then BLACK else WHITE)
           in if isUnderAttack C board pos enemyColor
                 \<and> \<not> isUnderAttack C board pos pawnColor then
                (let defenderBonus = evaluatePotentialDefenders C board pos pawnColor;
                     attackers = attackersOf C board pos enemyColor
                 in (if pawnColor = WHITE then - 120 else 120)
                    + (if pawnColor = WHITE then defenderBonus else - defenderBonus)
                    + (\<Sum>attackerPos\<leftarrow>attackers.
                         if isUnderAttack C board attackerPos pawnColor
                         then (if pawnColor = WHITE then 100 else - 100) else 0))
              else 0)
      | _ \<Rightarrow> 0)"

definition evaluateUndefendedPawns :: "'b Collab \<Rightarrow> 'b \<Rightarrow> int" where
  "evaluateUndefendedPawns C board =
     (if countDevelopedOffHome C board > 6 then 0
      else (\<Sum>pos\<leftarrow>allSquares. undefendedPawnAt C board pos))"

subsection \<open>Early f-pawn moves\<close>

definition evaluateEarlyFPawnMoves :: "'b Collab \<Rightarrow> 'b \<Rightarrow> int" where
  "evaluateEarlyFPawnMoves C board =
     (let isOpening = (countDevelopedOffRank C board < 7)
      in if \<not> isOpening then 0
         else
           (let pieceOnF2 = getPiece C board (Position 5 1);
                pieceOnF3 = getPiece C board (Position 5 2);
                pieceOnF4 = getPiece C board (Position 5 3);
                pieceOnF7 = getPiece C board (Position 5 6);
                pieceOnF6 = getPiece C board (Position 5 5);
                pieceOnF5 = getPiece C board (Position 5 4)
            in (if isEmpty pieceOnF2 then
                  (if pieceOnF3 = Pc PAWN WHITE then - 30 else 0)
                  + (if pieceOnF4 = Pc PAWN WHITE then - 60 else 0)
                else 0)
               + (if isEmpty pieceOnF7 then
                    (if pieceOnF6 = Pc PAWN BLACK then 30 else 0)
                    + (if pieceOnF5 = Pc PAWN BLACK then 60 else 0)
                  else 0)))"

subsection \<open>Minor piece development for defence\<close>

definition pawnsNeedingDefense :: "'b Collab \<Rightarrow> 'b \<Rightarrow> Color \<Rightarrow> Position list" where
  "pawnsNeedingDefense C board pawnColor =
     filter (\<lambda>pos. getPiece C board pos = Pc PAWN pawnColor
               \<and> isUnderAttack C board pos (if pawnColor = WHITE then BLACK else WHITE)
               \<and> \<not> isUnderAttack C board pos pawnColor) allSquares"

definition defenseMoveBonus ::
  "'b Collab \<Rightarrow> 'b \<Rightarrow> Color \<Rightarrow> Position list \<Rightarrow> Move \<Rightarrow> int" where
  "defenseMoveBonus C board enemyColor pawns move =
     (case find (\<lambda>pawnPos. isDefendingMove move pawnPos
                   \<and> \<not> isUnderAttack C board (mto move) enemyColor) pawns of
        None \<Rightarrow> 0
      | Some pawnPos \<Rightarrow> 35 + (if isCentralTarget move then 15 else 0))"

definition whiteMinorDefenseAt :: "'b Collab \<Rightarrow> 'b \<Rightarrow> Position list \<Rightarrow> Position \<Rightarrow> int" where
  "whiteMinorDefenseAt C board whitePawns pos =
     (let piece = getPiece C board pos;
          isInStartingPosition =
            (if piece = Pc KNIGHT WHITE then prank pos = 0 \<and> (pfile pos = 1 \<or> pfile pos = 6)
             else if piece = Pc BISHOP WHITE then prank pos = 0 \<and> (pfile pos = 2 \<or> pfile pos = 5)
             else False)
      in if (piece = Pc KNIGHT WHITE \<or> piece = Pc BISHOP WHITE)
            \<and> whitePawns \<noteq> [] \<and> isInStartingPosition then
           (\<Sum>move\<leftarrow>generatePseudoLegalMoves C board pos.
              defenseMoveBonus C board BLACK whitePawns move)
         else 0)"

definition blackMinorDefenseAt :: "'b Collab \<Rightarrow> 'b \<Rightarrow> Position list \<Rightarrow> Position \<Rightarrow> int" where
  "blackMinorDefenseAt C board blackPawns pos =
     (let piece = getPiece C board pos;
          isInStartingPosition =
            (if piece = Pc KNIGHT BLACK then prank pos = 7 \<and> (pfile pos = 1 \<or> pfile pos = 6)
             else if piece = Pc BISHOP BLACK then prank pos = 7 \<and> (pfile pos = 2 \<or> pfile pos = 5)
             else False)
      in if (piece = Pc KNIGHT BLACK \<or> piece = Pc BISHOP BLACK)
            \<and> blackPawns \<noteq> [] \<and> isInStartingPosition then
           - (\<Sum>move\<leftarrow>generatePseudoLegalMoves C board pos.
                defenseMoveBonus C board WHITE blackPawns move)
         else 0)"

definition evaluateMinorPieceDevelopmentForDefense :: "'b Collab \<Rightarrow> 'b \<Rightarrow> int" where
  "evaluateMinorPieceDevelopmentForDefense C board =
     (if countDevelopedOffHome C board > 6 then 0
      else
        (let whitePawnsNeedingDefense = pawnsNeedingDefense C board WHITE;
             blackPawnsNeedingDefense = pawnsNeedingDefense C board BLACK
         in (\<Sum>pos\<leftarrow>allSquares. whiteMinorDefenseAt C board whitePawnsNeedingDefense pos)
            + (\<Sum>pos\<leftarrow>allSquares. blackMinorDefenseAt C board blackPawnsNeedingDefense pos)))"

subsection \<open>The aggregate\<close>

text \<open>
  The terms in the order the source adds them; mobility, pawn structure and king safety
  are commented out there.
\<close>

definition evaluate :: "'b Collab \<Rightarrow> 'b \<Rightarrow> int" where
  "evaluate C board =
     evaluateMaterial C board
     + evaluateCenterControl C board
     + evaluatePiecePositions C board
     + evaluateEarlyQueenDevelopment C board
     + evaluatePieceDevelopment C board
     + fst (evaluateEarlyKingMovement C board)
     + fst (evaluateCastling C board)
     + evaluatePawnDoubleMoves C board
     + evaluateUndefendedPawns C board
     + fst (evaluateKingPawnShield C board)
     + evaluateMinorPieceDevelopmentForDefense C board
     + evaluateEarlyFPawnMoves C board"

section \<open>The engine (engine.h and its implementation)\<close>

text \<open>
  \<open>maxDepth\<close> and \<open>nodesSearched\<close> are C++ \<open>int\<close> fields and the scores are
  \<open>int\<close>: 32-bit words read as two's complement, compared with the signed order.  The
  evaluator only ever adds to its score, so its result is computed over the integers and
  reduced to 32 bits where the engine receives it.  \<open>startTime\<close> is the clock reading
  taken when a search starts.
\<close>

type_synonym cint = "32 word"

record Engine =
  maxDepth :: cint
  nodesSearched :: cint
  startTime :: int

definition INT_MIN :: cint where
  "INT_MIN = - 2147483648"

definition INT_MAX :: cint where
  "INT_MAX = 2147483647"

text \<open>\<open>std::max(a, b)\<close> is \<open>(a < b) ? b : a\<close> and \<open>std::min(a, b)\<close> is \<open>(b < a) ? b : a\<close>.\<close>

definition smax :: "cint \<Rightarrow> cint \<Rightarrow> cint" where
  "smax a b = (if a <s b then b else a)"

definition smin :: "cint \<Rightarrow> cint \<Rightarrow> cint" where
  "smin a b = (if b <s a then b else a)"

definition setDepth :: "Engine \<Rightarrow> cint \<Rightarrow> Engine" where
  "setDepth e depth = e\<lparr>maxDepth := depth\<rparr>"

definition getNodesSearched :: "Engine \<Rightarrow> cint" where
  "getNodesSearched e = nodesSearched e"

definition resetNodesSearched :: "Engine \<Rightarrow> Engine" where
  "resetNodesSearched e = e\<lparr>nodesSearched := 0\<rparr>"

text \<open>
  The two move loops of \<open>minimax\<close>.  \<open>child\<close> is the recursive call on the copied
  board one ply deeper; the engine is threaded through because every call counts a node.
\<close>

fun maxLoop ::
  "(Engine \<Rightarrow> 'b \<Rightarrow> cint \<Rightarrow> cint \<Rightarrow> cint \<times> Engine) \<Rightarrow> 'b Collab \<Rightarrow> 'b \<Rightarrow> Move list
     \<Rightarrow> cint \<Rightarrow> cint \<Rightarrow> cint \<Rightarrow> Engine \<Rightarrow> cint \<times> Engine"
where
  "maxLoop child C board [] maxEval alpha beta e = (maxEval, e)"
| "maxLoop child C board (move # moves) maxEval alpha beta e =
     (let testBoard = makeMove C board move;
          r = child e testBoard alpha beta;
          maxEval' = smax maxEval (fst r);
          alpha' = smax alpha (fst r)
      in if beta \<le>s alpha' then (maxEval', snd r)
         else maxLoop child C board moves maxEval' alpha' beta (snd r))"

fun minLoop ::
  "(Engine \<Rightarrow> 'b \<Rightarrow> cint \<Rightarrow> cint \<Rightarrow> cint \<times> Engine) \<Rightarrow> 'b Collab \<Rightarrow> 'b \<Rightarrow> Move list
     \<Rightarrow> cint \<Rightarrow> cint \<Rightarrow> cint \<Rightarrow> Engine \<Rightarrow> cint \<times> Engine"
where
  "minLoop child C board [] minEval alpha beta e = (minEval, e)"
| "minLoop child C board (move # moves) minEval alpha beta e =
     (let testBoard = makeMove C board move;
          r = child e testBoard alpha beta;
          minEval' = smin minEval (fst r);
          beta' = smin beta (fst r)
      in if beta' \<le>s alpha then (minEval', snd r)
         else minLoop child C board moves minEval' alpha beta' (snd r))"

text \<open>
  \<open>depth - 1\<close> wraps around, so a call with a negative depth counts down through the
  whole 32-bit range before it reaches 0: the recursion ends for every depth.
\<close>

function minimax ::
  "'b Collab \<Rightarrow> Engine \<Rightarrow> 'b \<Rightarrow> cint \<Rightarrow> cint \<Rightarrow> cint \<Rightarrow> bool \<Rightarrow> cint \<times> Engine"
where
  "minimax C e board depth alpha beta maximizingPlayer =
     (let e1 = e\<lparr>nodesSearched := nodesSearched e + 1\<rparr>
      in if depth = 0 then (word_of_int (evaluate C board), e1)
         else
           (let legalMoves = generateLegalMoves C board
            in if legalMoves = [] then
                 (if isInCheck C board then
                    ((if maximizingPlayer then - 20000 + (maxDepth e1 - depth)
                      else 20000 - (maxDepth e1 - depth)), e1)
                  else (0, e1))
               else if maximizingPlayer then
                 maxLoop (\<lambda>e' testBoard a b. minimax C e' testBoard (depth - 1) a b False)
                   C board legalMoves INT_MIN alpha beta e1
               else
                 minLoop (\<lambda>e' testBoard a b. minimax C e' testBoard (depth - 1) a b True)
                   C board legalMoves INT_MAX alpha beta e1))"
  by pat_completeness auto
termination
  by (relation "measure (\<lambda>(C, e, board, depth, alpha, beta, m). unat depth)")
     (auto simp: measure_unat)

text \<open>
  What \<open>getBestMove\<close> writes to \<open>std::cout\<close>: the items inserted into the stream, in
  order.
\<close>

datatype OutItem = OutStr string | OutInt cint | OutLong int | Endl

text \<open>
  The root loop of \<open>getBestMove\<close>: every legal move is searched with the full window on a
  copy of the board, and a strictly better score replaces the best move.
\<close>

fun rootLoop ::
  "'b Collab \<Rightarrow> 'b \<Rightarrow> Move list \<Rightarrow> Move \<Rightarrow> cint \<Rightarrow> Engine \<Rightarrow> Move \<times> cint \<times> Engine"
where
  "rootLoop C board [] bestMove bestScore e = (bestMove, bestScore, e)"
| "rootLoop C board (move # moves) bestMove bestScore e =
     (let testBoard = makeMove C board move;
          r = minimax C e testBoard (maxDepth e - 1) INT_MIN INT_MAX
                (getSideToMove C board \<noteq> WHITE);
          score = fst r
      in if (getSideToMove C board = WHITE \<and> bestScore <s score)
            \<or> (getSideToMove C board = BLACK \<and> score <s bestScore)
         then rootLoop C board moves move score (snd r)
         else rootLoop C board moves bestMove bestScore (snd r))"

text \<open>
  \<open>getBestMove\<close> returns the move; the engine it leaves behind and the output it wrote
  are returned with it.  \<open>now0\<close> and \<open>now1\<close> are the readings of the steady clock at
  the start and at the end of the search.
\<close>

definition getBestMove ::
  "'b Collab \<Rightarrow> int \<Rightarrow> int \<Rightarrow> Engine \<Rightarrow> 'b \<Rightarrow> Move \<times> Engine \<times> OutItem list"
where
  "getBestMove C now0 now1 e board =
     (let e1 = resetNodesSearched e;
          e2 = e1\<lparr>startTime := now0\<rparr>
      in case generateLegalMoves C board of
           [] \<Rightarrow> (nullMove C, e2, [])
         | firstMove # otherMoves \<Rightarrow>
             (let bestScore0 = (if getSideToMove C board = WHITE then INT_MIN else INT_MAX);
                  (bestMove, bestScore, e3) =
                    rootLoop C board (firstMove # otherMoves) firstMove bestScore0 e2;
                  duration = toMillis C (now1 - startTime e3)
              in (bestMove, e3,
                  [OutStr ''Nodes searched: '', OutInt (nodesSearched e3), Endl,
                   OutStr ''Time taken: '', OutLong duration, OutStr '' ms'', Endl,
                   OutStr ''Best move: '', OutStr (toAlgebraic C bestMove),
                   OutStr '' with score: '', OutInt bestScore, Endl])))"

text \<open>
  The score the root loop obtains for a move, and its test for replacing the best move:
  \<open>score > bestScore\<close> for WHITE to move, \<open>score < bestScore\<close> for BLACK.
\<close>

definition rootScore :: "'b Collab \<Rightarrow> Engine \<Rightarrow> 'b \<Rightarrow> Move \<Rightarrow> cint" where
  "rootScore C e board move =
     fst (minimax C e (makeMove C board move) (maxDepth e - 1) INT_MIN INT_MAX
            (getSideToMove C board \<noteq> WHITE))"

definition improves :: "Color \<Rightarrow> cint \<Rightarrow> cint \<Rightarrow> bool" where
  "improves side score bestScore \<longleftrightarrow>
     (side = WHITE \<and> bestScore <s score) \<or> (side = BLACK \<and> score <s bestScore)"

subsection \<open>The search with pruning disabled\<close>

text \<open>
  The reference the specification compares with: the same search with the window held at
  \<open>(INT_MIN, INT_MAX)\<close> in every call, so that the cut test \<open>beta <= alpha\<close> never
  succeeds and every move of every node is searched.
\<close>

fun maxLoopNoPrune ::
  "(Engine \<Rightarrow> 'b \<Rightarrow> cint \<times> Engine) \<Rightarrow> 'b Collab \<Rightarrow> 'b \<Rightarrow> Move list
     \<Rightarrow> cint \<Rightarrow> Engine \<Rightarrow> cint \<times> Engine"
where
  "maxLoopNoPrune child C board [] maxEval e = (maxEval, e)"
| "maxLoopNoPrune child C board (move # moves) maxEval e =
     (let r = child e (makeMove C board move);
          maxEval' = smax maxEval (fst r)
      in if INT_MAX \<le>s INT_MIN then (maxEval', snd r)
         else maxLoopNoPrune child C board moves maxEval' (snd r))"

fun minLoopNoPrune ::
  "(Engine \<Rightarrow> 'b \<Rightarrow> cint \<times> Engine) \<Rightarrow> 'b Collab \<Rightarrow> 'b \<Rightarrow> Move list
     \<Rightarrow> cint \<Rightarrow> Engine \<Rightarrow> cint \<times> Engine"
where
  "minLoopNoPrune child C board [] minEval e = (minEval, e)"
| "minLoopNoPrune child C board (move # moves) minEval e =
     (let r = child e (makeMove C board move);
          minEval' = smin minEval (fst r)
      in if INT_MAX \<le>s INT_MIN then (minEval', snd r)
         else minLoopNoPrune child C board moves minEval' (snd r))"

function minimaxNoPrune ::
  "'b Collab \<Rightarrow> Engine \<Rightarrow> 'b \<Rightarrow> cint \<Rightarrow> bool \<Rightarrow> cint \<times> Engine"
where
  "minimaxNoPrune C e board depth maximizingPlayer =
     (let e1 = e\<lparr>nodesSearched := nodesSearched e + 1\<rparr>
      in if depth = 0 then (word_of_int (evaluate C board), e1)
         else
           (let legalMoves = generateLegalMoves C board
            in if legalMoves = [] then
                 (if isInCheck C board then
                    ((if maximizingPlayer then - 20000 + (maxDepth e1 - depth)
                      else 20000 - (maxDepth e1 - depth)), e1)
                  else (0, e1))
               else if maximizingPlayer then
                 maxLoopNoPrune (\<lambda>e' testBoard. minimaxNoPrune C e' testBoard (depth - 1) False)
                   C board legalMoves INT_MIN e1
               else
                 minLoopNoPrune (\<lambda>e' testBoard. minimaxNoPrune C e' testBoard (depth - 1) True)
                   C board legalMoves INT_MAX e1))"
  by pat_completeness auto
termination
  by (relation "measure (\<lambda>(C, e, board, depth, m). unat depth)")
     (auto simp: measure_unat)

subsection \<open>The value of the game tree\<close>

text \<open>
  The plain minimax value of a position searched to a depth, without node counter and
  without window: the yardstick of the proofs below.
\<close>

function gameValue :: "'b Collab \<Rightarrow> cint \<Rightarrow> 'b \<Rightarrow> cint \<Rightarrow> bool \<Rightarrow> cint" where
  "gameValue C md board depth maximizingPlayer =
     (if depth = 0 then word_of_int (evaluate C board)
      else
        (let legalMoves = generateLegalMoves C board
         in if legalMoves = [] then
              (if isInCheck C board then
                 (if maximizingPlayer then - 20000 + (md - depth) else 20000 - (md - depth))
               else 0)
            else if maximizingPlayer then
              foldl smax INT_MIN
                (map (\<lambda>move. gameValue C md (makeMove C board move) (depth - 1) False) legalMoves)
            else
              foldl smin INT_MAX
                (map (\<lambda>move. gameValue C md (makeMove C board move) (depth - 1) True) legalMoves)))"
  by pat_completeness auto
termination
  by (relation "measure (\<lambda>(C, md, board, depth, m). unat depth)")
     (auto simp: measure_unat)

text \<open>The value at a leaf or at a position without legal moves.\<close>

definition terminalValue :: "'b Collab \<Rightarrow> cint \<Rightarrow> 'b \<Rightarrow> cint \<Rightarrow> bool \<Rightarrow> cint" where
  "terminalValue C md board depth mx =
     (if depth = 0 then word_of_int (evaluate C board)
      else if isInCheck C board then
        (if mx then - 20000 + (md - depth) else 20000 - (md - depth))
      else 0)"

text \<open>
  The fail-soft contract of a search with window \<open>(alpha, beta)\<close>: the result \<open>r\<close>
  is the value \<open>v\<close> inside the window, an upper bound of it at or below \<open>alpha\<close> and
  a lower bound at or above \<open>beta\<close>.
\<close>

definition failSoft :: "cint \<Rightarrow> cint \<Rightarrow> cint \<Rightarrow> cint \<Rightarrow> bool" where
  "failSoft alpha beta v r \<longleftrightarrow>
     min (sint v) (sint beta) \<le> sint r \<and> sint r \<le> max (sint v) (sint alpha)"

section \<open>Test positions\<close>

text \<open>
  The board collaborator is a parameter of everything above.  The concrete positions used
  below are values of \<open>TestBoard\<close>: the placement of the pieces, the side to move,
  whether that side is in check, and the legal moves, each with the position it leads to.
  The attack query is answered from the placement by the rules of chess (pawns attack one
  square diagonally forward, knights and kings by their step, bishops, rooks and queens
  along free lines), and so are the pseudo-legal moves (without castling and en passant,
  which no position below offers).  The material values are the usual 100, 320, 330, 500,
  900 and 20000.
\<close>

datatype TestBoard =
  TestBoard (placement: "(Position \<times> Piece) list") (toMove: Color) (inCheck: bool)
    (successors: "(Move \<times> TestBoard) list")

definition pieceOn :: "(Position \<times> Piece) list \<Rightarrow> Position \<Rightarrow> Piece" where
  "pieceOn pl pos = (case map_of pl pos of None \<Rightarrow> NoPiece | Some p \<Rightarrow> p)"

definition sgnStep :: "int \<Rightarrow> int" where
  "sgnStep d = (if d < 0 then - 1 else if d = 0 then 0 else 1)"

definition lineFree :: "(Position \<times> Piece) list \<Rightarrow> Position \<Rightarrow> Position \<Rightarrow> bool" where
  "lineFree pl src dst =
     (let df = pfile dst - pfile src; dr = prank dst - prank src;
          n = max \<bar>df\<bar> \<bar>dr\<bar>
      in list_all (\<lambda>k. pieceOn pl (Position (pfile src + k * sgnStep df)
                                         (prank src + k * sgnStep dr)) = NoPiece)
           [1..n - 1])"

definition pieceAttacks ::
  "(Position \<times> Piece) list \<Rightarrow> Position \<Rightarrow> Piece \<Rightarrow> Position \<Rightarrow> bool" where
  "pieceAttacks pl src piece dst =
     (let df = pfile dst - pfile src; dr = prank dst - prank src
      in case piece of
           NoPiece \<Rightarrow> False
         | Pc PAWN c \<Rightarrow> \<bar>df\<bar> = 1 \<and> dr = (if c = WHITE then 1 else - 1)
         | Pc KNIGHT c \<Rightarrow> (\<bar>df\<bar> = 1 \<and> \<bar>dr\<bar> = 2) \<or> (\<bar>df\<bar> = 2 \<and> \<bar>dr\<bar> = 1)
         | Pc KING c \<Rightarrow> max \<bar>df\<bar> \<bar>dr\<bar> = 1
         | Pc BISHOP c \<Rightarrow> \<bar>df\<bar> = \<bar>dr\<bar> \<and> df \<noteq> 0 \<and> lineFree pl src dst
         | Pc ROOK c \<Rightarrow> (df = 0 \<or> dr = 0) \<and> (df \<noteq> 0 \<or> dr \<noteq> 0) \<and> lineFree pl src dst
         | Pc QUEEN c \<Rightarrow>
             ((\<bar>df\<bar> = \<bar>dr\<bar> \<and> df \<noteq> 0) \<or> ((df = 0 \<or> dr = 0) \<and> (df \<noteq> 0 \<or> dr \<noteq> 0)))
             \<and> lineFree pl src dst)"

definition colorIs :: "Color \<Rightarrow> Piece \<Rightarrow> bool" where
  "colorIs c piece = (case piece of NoPiece \<Rightarrow> False | Pc t c' \<Rightarrow> c' = c)"

definition attackedBy :: "(Position \<times> Piece) list \<Rightarrow> Position \<Rightarrow> Color \<Rightarrow> bool" where
  "attackedBy pl pos byColor =
     list_ex (\<lambda>(src, piece). colorIs byColor piece \<and> pieceOn pl src = piece
                \<and> pieceAttacks pl src piece pos) pl"

definition pawnPushes :: "(Position \<times> Piece) list \<Rightarrow> Position \<Rightarrow> Color \<Rightarrow> Position list" where
  "pawnPushes pl src c =
     (let dir = (if c = WHITE then 1 else - 1);
          home = (if c = WHITE then 1 else 6);
          one = Position (pfile src) (prank src + dir);
          two = Position (pfile src) (prank src + 2 * dir)
      in if isValid one \<and> pieceOn pl one = NoPiece then
           one # (if prank src = home \<and> pieceOn pl two = NoPiece then [two] else [])
         else [])"

definition pseudoLegalFrom :: "(Position \<times> Piece) list \<Rightarrow> Position \<Rightarrow> Move list" where
  "pseudoLegalFrom pl src =
     (case pieceOn pl src of
        NoPiece \<Rightarrow> []
      | Pc t c \<Rightarrow>
          map (Move src)
            ((if t = PAWN then pawnPushes pl src c else [])
             @ filter (\<lambda>dst. pieceAttacks pl src (Pc t c) dst
                         \<and> \<not> colorIs c (pieceOn pl dst)
                         \<and> (t = PAWN \<longrightarrow> colorIs (opposite c) (pieceOn pl dst)))
                 allSquares))"

definition standardValue :: "Piece \<Rightarrow> int" where
  "standardValue piece =
     (case piece of
        NoPiece \<Rightarrow> 0
      | Pc PAWN c \<Rightarrow> 100 | Pc KNIGHT c \<Rightarrow> 320 | Pc BISHOP c \<Rightarrow> 330
      | Pc ROOK c \<Rightarrow> 500 | Pc QUEEN c \<Rightarrow> 900 | Pc KING c \<Rightarrow> 20000)"

definition squareName :: "Position \<Rightarrow> string" where
  "squareName pos =
     [''abcdefgh'' ! nat (pfile pos), ''12345678'' ! nat (prank pos)]"

definition testCollab :: "TestBoard Collab" where
  "testCollab =
     \<lparr> getPiece = (\<lambda>b pos. pieceOn (placement b) pos),
       isUnderAttack = (\<lambda>b pos c. attackedBy (placement b) pos c),
       generatePseudoLegalMoves = (\<lambda>b pos. pseudoLegalFrom (placement b) pos),
       generateLegalMoves = (\<lambda>b. map fst (successors b)),
       makeMove = (\<lambda>b m. case map_of (successors b) m of None \<Rightarrow> b | Some b' \<Rightarrow> b'),
       isInCheck = inCheck,
       getSideToMove = toMove,
       getValue = standardValue,
       toAlgebraic = (\<lambda>m. squareName (mfrom m) @ squareName (mto m)),
       nullMove = Move (Position 0 0) (Position 0 0),
       toMillis = (\<lambda>d. d) \<rparr>"

text \<open>Swapping the colours and reflecting the ranks of a placement.\<close>

definition mirrorPos :: "Position \<Rightarrow> Position" where
  "mirrorPos pos = Position (pfile pos) (7 - prank pos)"

definition mirrorPiece :: "Piece \<Rightarrow> Piece" where
  "mirrorPiece piece = (case piece of NoPiece \<Rightarrow> NoPiece | Pc t c \<Rightarrow> Pc t (opposite c))"

definition mirrorPlacement :: "(Position \<times> Piece) list \<Rightarrow> (Position \<times> Piece) list" where
  "mirrorPlacement pl = map (\<lambda>(pos, piece). (mirrorPos pos, mirrorPiece piece)) pl"

definition mirrorBoard :: "TestBoard \<Rightarrow> TestBoard" where
  "mirrorBoard b = TestBoard (mirrorPlacement (placement b)) (opposite (toMove b)) (inCheck b) []"

subsection \<open>Positions for the engine\<close>

text \<open>
  A stalemate (Black: Ka8; White: Qb6, Kc7; Black to move) and a back-rank mate (Black:
  Kg8, pawns f7 g7 h7; White: Re8, Kg1; Black to move): neither has a legal move.
\<close>

definition stalemateBoard :: TestBoard where
  "stalemateBoard =
     TestBoard [(Position 0 7, Pc KING BLACK), (Position 1 5, Pc QUEEN WHITE),
                (Position 2 6, Pc KING WHITE)] BLACK False []"

definition mateBoard :: TestBoard where
  "mateBoard =
     TestBoard [(Position 6 7, Pc KING BLACK), (Position 5 6, Pc PAWN BLACK),
                (Position 6 6, Pc PAWN BLACK), (Position 7 6, Pc PAWN BLACK),
                (Position 4 7, Pc ROOK WHITE), (Position 6 0, Pc KING WHITE)] BLACK True []"

definition testEngine :: Engine where
  "testEngine = \<lparr> maxDepth = 3, nodesSearched = 7, startTime = 0 \<rparr>"

text \<open>
  White: Ka1, pawn h2; Black: Kc2; White to move.  The legal moves are Ka2, h3 and h4; the
  positions they lead to are at the horizon of a search of depth 1, which never asks for
  their moves.
\<close>

definition kpAfterKa2 :: TestBoard where
  "kpAfterKa2 =
     TestBoard [(Position 0 1, Pc KING WHITE), (Position 7 1, Pc PAWN WHITE),
                (Position 2 1, Pc KING BLACK)] BLACK False []"

definition kpAfterH3 :: TestBoard where
  "kpAfterH3 =
     TestBoard [(Position 0 0, Pc KING WHITE), (Position 7 2, Pc PAWN WHITE),
                (Position 2 1, Pc KING BLACK)] BLACK False []"

definition kpAfterH4 :: TestBoard where
  "kpAfterH4 =
     TestBoard [(Position 0 0, Pc KING WHITE), (Position 7 3, Pc PAWN WHITE),
                (Position 2 1, Pc KING BLACK)] BLACK False []"

definition kpBoard :: TestBoard where
  "kpBoard =
     TestBoard [(Position 0 0, Pc KING WHITE), (Position 7 1, Pc PAWN WHITE),
                (Position 2 1, Pc KING BLACK)] WHITE False
       [(Move (Position 0 0) (Position 0 1), kpAfterKa2),
        (Move (Position 7 1) (Position 7 2), kpAfterH3),
        (Move (Position 7 1) (Position 7 3), kpAfterH4)]"

definition shallowEngine :: Engine where
  "shallowEngine = \<lparr> maxDepth = 1, nodesSearched = 7, startTime = 0 \<rparr>"

subsection \<open>Positions for the evaluator\<close>

text \<open>A partial position without kings.\<close>

definition kinglessBoard :: TestBoard where
  "kinglessBoard =
     TestBoard [(Position 6 0, Pc ROOK WHITE), (Position 5 2, Pc PAWN WHITE),
                (Position 3 3, Pc KNIGHT WHITE), (Position 5 5, Pc PAWN BLACK),
                (Position 5 7, Pc QUEEN BLACK)] WHITE False []"

definition backRank :: "int \<Rightarrow> Color \<Rightarrow> (Position \<times> Piece) list" where
  "backRank r c =
     [(Position 0 r, Pc ROOK c), (Position 1 r, Pc KNIGHT c), (Position 2 r, Pc BISHOP c),
      (Position 3 r, Pc QUEEN c), (Position 4 r, Pc KING c), (Position 5 r, Pc BISHOP c),
      (Position 6 r, Pc KNIGHT c), (Position 7 r, Pc ROOK c)]"

definition pawnsOn :: "int \<Rightarrow> Color \<Rightarrow> int list \<Rightarrow> (Position \<times> Piece) list" where
  "pawnsOn r c files = map (\<lambda>f. (Position f r, Pc PAWN c)) files"

text \<open>The position after 1.a4 b5 2.axb5, and its colour mirror (after 1.b3 a5 2.b4 axb4).\<close>

definition whiteDoubledPawns :: TestBoard where
  "whiteDoubledPawns =
     TestBoard (backRank 0 WHITE @ pawnsOn 1 WHITE [1, 2, 3, 4, 5, 6, 7]
                @ [(Position 1 4, Pc PAWN WHITE)]
                @ pawnsOn 6 BLACK [0, 2, 3, 4, 5, 6, 7] @ backRank 7 BLACK)
       BLACK False []"

definition blackDoubledPawns :: TestBoard where
  "blackDoubledPawns = mirrorBoard whiteDoubledPawns"

text \<open>The position after 1.e4 Nf6.\<close>

definition afterE4Nf6 :: TestBoard where
  "afterE4Nf6 =
     TestBoard (backRank 0 WHITE @ pawnsOn 1 WHITE [0, 1, 2, 3, 5, 6, 7]
                @ [(Position 4 3, Pc PAWN WHITE), (Position 5 5, Pc KNIGHT BLACK)]
                @ pawnsOn 6 BLACK [0, 1, 2, 3, 4, 5, 6, 7]
                @ filter (\<lambda>(pos, piece). pos \<noteq> Position 6 7) (backRank 7 BLACK))
       WHITE False []"

text \<open>The position after 1.Nf3 e5 2.d3 e4.\<close>

definition knightAttackedBoard :: TestBoard where
  "knightAttackedBoard =
     TestBoard (filter (\<lambda>(pos, piece). pos \<noteq> Position 6 0) (backRank 0 WHITE)
                @ pawnsOn 1 WHITE [0, 1, 2, 4, 5, 6, 7]
                @ [(Position 3 2, Pc PAWN WHITE), (Position 5 2, Pc KNIGHT WHITE),
                   (Position 4 3, Pc PAWN BLACK)]
                @ pawnsOn 6 BLACK [0, 1, 2, 3, 5, 6, 7] @ backRank 7 BLACK)
       WHITE False []"

section \<open>Signed comparison of scores\<close>

declare gameValue.simps [simp del]
declare minimax.simps [simp del]
declare minimaxNoPrune.simps [simp del]

lemma sint_INT_MIN: "sint INT_MIN = - 2147483648"
  by (simp add: INT_MIN_def)

lemma sint_INT_MAX: "sint INT_MAX = 2147483647"
  by (simp add: INT_MAX_def)

lemma sint_lower: "- 2147483648 \<le> sint (x :: cint)"
  using sint_ge [of x] by simp

lemma sint_upper: "sint (x :: cint) \<le> 2147483647"
  using sint_lt [of x] by simp

lemma sint_smax: "sint (smax a b) = max (sint a) (sint b)"
  by (simp add: smax_def word_sless_alt max_def)

lemma sint_smin: "sint (smin a b) = min (sint a) (sint b)"
  by (simp add: smin_def word_sless_alt min_def)

lemma sint_inject: "sint (a :: cint) = sint b \<longleftrightarrow> a = b"
  by (auto intro: signed_word_eqI)

lemma no_cut_fixed_window: "\<not> INT_MAX \<le>s INT_MIN"
  by (simp add: word_sle_eq sint_INT_MIN sint_INT_MAX)

lemma maxLoopNoPrune_value:
  assumes child: "\<And>e' tb. maxDepth e' = md \<Longrightarrow>
            fst (child e' tb) = V tb \<and> maxDepth (snd (child e' tb)) = md"
  shows "maxDepth e = md \<Longrightarrow>
         fst (maxLoopNoPrune child C board ms m e)
           = foldl smax m (map (\<lambda>move. V (makeMove C board move)) ms)
         \<and> maxDepth (snd (maxLoopNoPrune child C board ms m e)) = md"
proof (induction ms arbitrary: m e)
  case Nil
  then show ?case by simp
next
  case (Cons x xs)
  from child [OF Cons.prems, of "makeMove C board x"]
  have c: "fst (child e (makeMove C board x)) = V (makeMove C board x)"
    and d: "maxDepth (snd (child e (makeMove C board x))) = md" by simp_all
  show ?case
    using Cons.IH [OF d] c by (simp add: Let_def no_cut_fixed_window)
qed

lemma minLoopNoPrune_value:
  assumes child: "\<And>e' tb. maxDepth e' = md \<Longrightarrow>
            fst (child e' tb) = V tb \<and> maxDepth (snd (child e' tb)) = md"
  shows "maxDepth e = md \<Longrightarrow>
         fst (minLoopNoPrune child C board ms m e)
           = foldl smin m (map (\<lambda>move. V (makeMove C board move)) ms)
         \<and> maxDepth (snd (minLoopNoPrune child C board ms m e)) = md"
proof (induction ms arbitrary: m e)
  case Nil
  then show ?case by simp
next
  case (Cons x xs)
  from child [OF Cons.prems, of "makeMove C board x"]
  have c: "fst (child e (makeMove C board x)) = V (makeMove C board x)"
    and d: "maxDepth (snd (child e (makeMove C board x))) = md" by simp_all
  show ?case
    using Cons.IH [OF d] c by (simp add: Let_def no_cut_fixed_window)
qed

lemma minimaxNoPrune_unfold_max:
  "depth \<noteq> 0 \<Longrightarrow> generateLegalMoves C board \<noteq> [] \<Longrightarrow>
   minimaxNoPrune C e board depth True
     = maxLoopNoPrune (\<lambda>e' tb. minimaxNoPrune C e' tb (depth - 1) False) C board
         (generateLegalMoves C board) INT_MIN (e\<lparr>nodesSearched := nodesSearched e + 1\<rparr>)"
  by (subst minimaxNoPrune.simps) (simp add: Let_def)

lemma minimaxNoPrune_unfold_min:
  "depth \<noteq> 0 \<Longrightarrow> generateLegalMoves C board \<noteq> [] \<Longrightarrow>
   minimaxNoPrune C e board depth False
     = minLoopNoPrune (\<lambda>e' tb. minimaxNoPrune C e' tb (depth - 1) True) C board
         (generateLegalMoves C board) INT_MAX (e\<lparr>nodesSearched := nodesSearched e + 1\<rparr>)"
  by (subst minimaxNoPrune.simps) (simp add: Let_def)

lemma minimax_unfold_max:
  "depth \<noteq> 0 \<Longrightarrow> generateLegalMoves C board \<noteq> [] \<Longrightarrow>
   minimax C e board depth alpha beta True
     = maxLoop (\<lambda>e' tb a b. minimax C e' tb (depth - 1) a b False) C board
         (generateLegalMoves C board) INT_MIN alpha beta
         (e\<lparr>nodesSearched := nodesSearched e + 1\<rparr>)"
  by (subst minimax.simps) (simp add: Let_def)

lemma minimax_unfold_min:
  "depth \<noteq> 0 \<Longrightarrow> generateLegalMoves C board \<noteq> [] \<Longrightarrow>
   minimax C e board depth alpha beta False
     = minLoop (\<lambda>e' tb a b. minimax C e' tb (depth - 1) a b True) C board
         (generateLegalMoves C board) INT_MAX alpha beta
         (e\<lparr>nodesSearched := nodesSearched e + 1\<rparr>)"
  by (subst minimax.simps) (simp add: Let_def)

lemma gameValue_unfold_max:
  "depth \<noteq> 0 \<Longrightarrow> generateLegalMoves C board \<noteq> [] \<Longrightarrow>
   gameValue C md board depth True
     = foldl smax INT_MIN
         (map (\<lambda>move. gameValue C md (makeMove C board move) (depth - 1) False)
            (generateLegalMoves C board))"
  by (subst gameValue.simps) (simp add: Let_def)

lemma gameValue_unfold_min:
  "depth \<noteq> 0 \<Longrightarrow> generateLegalMoves C board \<noteq> [] \<Longrightarrow>
   gameValue C md board depth False
     = foldl smin INT_MAX
         (map (\<lambda>move. gameValue C md (makeMove C board move) (depth - 1) True)
            (generateLegalMoves C board))"
  by (subst gameValue.simps) (simp add: Let_def)

text \<open>At a leaf or a position without legal moves the searches count one node and agree.\<close>

lemma minimax_terminal:
  "depth = 0 \<or> generateLegalMoves C board = [] \<Longrightarrow>
   minimax C e board depth alpha beta mx
     = (terminalValue C (maxDepth e) board depth mx,
        e\<lparr>nodesSearched := nodesSearched e + 1\<rparr>)"
  by (subst minimax.simps) (auto simp: Let_def terminalValue_def)

lemma minimaxNoPrune_terminal:
  "depth = 0 \<or> generateLegalMoves C board = [] \<Longrightarrow>
   minimaxNoPrune C e board depth mx
     = (terminalValue C (maxDepth e) board depth mx,
        e\<lparr>nodesSearched := nodesSearched e + 1\<rparr>)"
  by (subst minimaxNoPrune.simps) (auto simp: Let_def terminalValue_def)

lemma gameValue_terminal:
  "depth = 0 \<or> generateLegalMoves C board = [] \<Longrightarrow>
   gameValue C md board depth mx = terminalValue C md board depth mx"
  by (subst gameValue.simps) (auto simp: Let_def terminalValue_def)

lemma minimaxNoPrune_gameValue:
  "fst (minimaxNoPrune C e board depth mx) = gameValue C (maxDepth e) board depth mx
   \<and> maxDepth (snd (minimaxNoPrune C e board depth mx)) = maxDepth e"
proof (induction C e board depth mx rule: minimaxNoPrune.induct)
  case (1 C e board depth mx)
  let ?e1 = "e\<lparr>nodesSearched := nodesSearched e + 1\<rparr>"
  let ?ms = "generateLegalMoves C board"
  show ?case
  proof (cases "depth = 0 \<or> ?ms = []")
    case True
    then show ?thesis
      by (simp add: minimaxNoPrune_terminal gameValue_terminal)
  next
    case False
    then have d: "depth \<noteq> 0" and ms: "?ms \<noteq> []" by simp_all
    have e1: "maxDepth ?e1 = maxDepth e" by simp
    show ?thesis
    proof (cases mx)
      case True
      have child: "\<And>e' tb. maxDepth e' = maxDepth e \<Longrightarrow>
          fst (minimaxNoPrune C e' tb (depth - 1) False)
            = gameValue C (maxDepth e) tb (depth - 1) False
          \<and> maxDepth (snd (minimaxNoPrune C e' tb (depth - 1) False)) = maxDepth e"
        using "1.IH"(1) [OF refl d refl ms True] by metis
      show ?thesis
        using maxLoopNoPrune_value
          [where child = "\<lambda>e' tb. minimaxNoPrune C e' tb (depth - 1) False"
             and V = "\<lambda>tb. gameValue C (maxDepth e) tb (depth - 1) False"
             and md = "maxDepth e", OF child e1, of C board ?ms INT_MIN] True
        by (simp add: minimaxNoPrune_unfold_max [OF d ms] gameValue_unfold_max [OF d ms])
    next
      case False
      have child: "\<And>e' tb. maxDepth e' = maxDepth e \<Longrightarrow>
          fst (minimaxNoPrune C e' tb (depth - 1) True)
            = gameValue C (maxDepth e) tb (depth - 1) True
          \<and> maxDepth (snd (minimaxNoPrune C e' tb (depth - 1) True)) = maxDepth e"
        using "1.IH"(2) [OF refl d refl ms False] by metis
      show ?thesis
        using minLoopNoPrune_value
          [where child = "\<lambda>e' tb. minimaxNoPrune C e' tb (depth - 1) True"
             and V = "\<lambda>tb. gameValue C (maxDepth e) tb (depth - 1) True"
             and md = "maxDepth e", OF child e1, of C board ?ms INT_MAX] False
        by (simp add: minimaxNoPrune_unfold_min [OF d ms] gameValue_unfold_min [OF d ms])
    qed
  qed
qed

section \<open>Alpha-beta pruning returns the minimax value\<close>

lemma foldl_smax_ge: "sint m \<le> sint (foldl smax m vs)"
proof (induction vs arbitrary: m)
  case Nil
  show ?case by simp
next
  case (Cons v vs)
  have "sint m \<le> sint (smax m v)" by (simp add: sint_smax)
  also have "\<dots> \<le> sint (foldl smax (smax m v) vs)" by (rule Cons.IH)
  finally show ?case by simp
qed

lemma foldl_smin_le: "sint (foldl smin m vs) \<le> sint m"
proof (induction vs arbitrary: m)
  case Nil
  show ?case by simp
next
  case (Cons v vs)
  have "sint (foldl smin (smin m v) vs) \<le> sint (smin m v)" by (rule Cons.IH)
  also have "\<dots> \<le> sint m" by (simp add: sint_smin)
  finally show ?case by simp
qed

lemma foldl_smax_start:
  "sint m' \<le> sint m \<Longrightarrow>
   sint (foldl smax m vs) = max (sint m) (sint (foldl smax m' vs))"
proof (induction vs arbitrary: m m')
  case Nil
  then show ?case by simp
next
  case (Cons v vs)
  have le: "sint (smax m' v) \<le> sint (smax m v)"
    using Cons.prems by (simp add: sint_smax)
  have ge: "sint v \<le> sint (foldl smax (smax m' v) vs)"
    using foldl_smax_ge [of "smax m' v" vs] by (simp add: sint_smax)
  show ?case
    using Cons.IH [OF le] ge by (simp add: sint_smax)
qed

lemma foldl_smin_start:
  "sint m \<le> sint m' \<Longrightarrow>
   sint (foldl smin m vs) = min (sint m) (sint (foldl smin m' vs))"
proof (induction vs arbitrary: m m')
  case Nil
  then show ?case by simp
next
  case (Cons v vs)
  have le: "sint (smin m v) \<le> sint (smin m' v)"
    using Cons.prems by (simp add: sint_smin)
  have ge: "sint (foldl smin (smin m' v) vs) \<le> sint v"
    using foldl_smin_le [of "smin m' v" vs] by (simp add: sint_smin)
  show ?case
    using Cons.IH [OF le] ge by (simp add: sint_smin)
qed

lemma ab_cut_arith:
  fixes m a b r v W :: int
  assumes "min v b \<le> r" "r \<le> max v a" "a < b" "m \<le> a" "b \<le> max a r"
  shows "min (max (max m v) W) b \<le> max m r \<and> max m r \<le> max (max (max m v) W) a"
proof -
  from assms have rb: "b \<le> r" by linarith
  with assms have rv: "r \<le> v" by linarith
  from rb assms have mr: "max m r = r" by linarith
  show ?thesis unfolding mr using rb rv by linarith
qed

lemma ab_step_arith:
  fixes m a b r v W R :: int
  assumes "min v b \<le> r" "r \<le> max v a" "a < b" "m \<le> a" "max a r < b"
    and "min (max (max m r) W) b \<le> R" "R \<le> max (max (max m r) W) (max a r)"
  shows "min (max (max m v) W) b \<le> R \<and> R \<le> max (max (max m v) W) a"
proof (cases "r \<le> a")
  case True
  with assms have vr: "v \<le> r" by linarith
  have lo: "min (max (max m v) W) b \<le> R"
    using assms(6) vr by linarith
  have hi: "R \<le> max (max (max m v) W) a"
    using assms(7) True assms(4) by linarith
  show ?thesis using lo hi by simp
next
  case False
  with assms have vr: "v = r" by linarith
  show ?thesis using assms(6,7) False assms(4) unfolding vr by linarith
qed

lemma ba_cut_arith:
  fixes m a b r v W :: int
  assumes "min v b \<le> r" "r \<le> max v a" "a < b" "b \<le> m" "min b r \<le> a"
  shows "min (min (min m v) W) b \<le> min m r \<and> min m r \<le> max (min (min m v) W) a"
proof -
  from assms have ra: "r \<le> a" by linarith
  with assms have vr: "v \<le> r" by linarith
  from ra assms have mr: "min m r = r" by linarith
  show ?thesis unfolding mr using ra vr by linarith
qed

lemma ba_step_arith:
  fixes m a b r v W R :: int
  assumes "min v b \<le> r" "r \<le> max v a" "a < b" "b \<le> m" "a < min b r"
    and "min (min (min m r) W) (min b r) \<le> R" "R \<le> max (min (min m r) W) a"
  shows "min (min (min m v) W) b \<le> R \<and> R \<le> max (min (min m v) W) a"
proof (cases "b \<le> r")
  case True
  with assms have rv: "r \<le> v" by linarith
  have hi: "R \<le> max (min (min m v) W) a"
    using assms(7) rv by linarith
  have lo: "min (min (min m v) W) b \<le> R"
    using assms(6) True assms(4) by linarith
  show ?thesis using lo hi by simp
next
  case False
  with assms have vr: "v = r" by linarith
  show ?thesis using assms(6,7) False assms(4) unfolding vr by linarith
qed

lemma maxLoop_failSoft:
  assumes child: "\<And>e' tb a b. maxDepth e' = md \<Longrightarrow> a <s b \<Longrightarrow>
            failSoft a b (V tb) (fst (child e' tb a b))
            \<and> maxDepth (snd (child e' tb a b)) = md"
  shows "maxDepth e = md \<Longrightarrow> alpha <s beta \<Longrightarrow> m \<le>s alpha \<Longrightarrow>
         failSoft alpha beta (foldl smax m (map (\<lambda>move. V (makeMove C board move)) ms))
           (fst (maxLoop child C board ms m alpha beta e))
         \<and> maxDepth (snd (maxLoop child C board ms m alpha beta e)) = md"
proof (induction ms arbitrary: m alpha e)
  case Nil
  then show ?case
    by (simp add: failSoft_def word_sle_eq word_sless_alt)
next
  case (Cons x xs)
  define tb where "tb = makeMove C board x"
  define r where "r = fst (child e tb alpha beta)"
  define e' where "e' = snd (child e tb alpha beta)"
  define vs where "vs = map (\<lambda>move. V (makeMove C board move)) xs"
  define W where "W = sint (foldl smax INT_MIN vs)"
  from child [OF Cons.prems(1,2), of tb]
  have fs: "min (sint (V tb)) (sint beta) \<le> sint r"
           "sint r \<le> max (sint (V tb)) (sint alpha)"
    and md: "maxDepth e' = md"
    by (simp_all add: failSoft_def r_def e'_def)
  have ab: "sint alpha < sint beta" and ma: "sint m \<le> sint alpha"
    using Cons.prems by (simp_all add: word_sle_eq word_sless_alt)
  have start: "\<And>z. sint (foldl smax z vs) = max (sint z) W"
    unfolding W_def by (rule foldl_smax_start) (simp add: sint_INT_MIN sint_lower)
  have target: "sint (foldl smax m (map (\<lambda>move. V (makeMove C board move)) (x # xs)))
                = max (max (sint m) (sint (V tb))) W"
    by (simp add: vs_def [symmetric] tb_def [symmetric] start sint_smax)
  show ?case
  proof (cases "beta \<le>s smax alpha r")
    case True
    then have cut: "sint beta \<le> max (sint alpha) (sint r)"
      by (simp add: word_sle_eq sint_smax)
    have res: "maxLoop child C board (x # xs) m alpha beta e = (smax m r, e')"
      using True by (simp add: Let_def tb_def r_def e'_def)
    have "min (max (max (sint m) (sint (V tb))) W) (sint beta) \<le> max (sint m) (sint r)
          \<and> max (sint m) (sint r) \<le> max (max (max (sint m) (sint (V tb))) W) (sint alpha)"
      by (rule ab_cut_arith [OF fs ab ma cut])
    then show ?thesis
      unfolding res failSoft_def target using md by (simp add: sint_smax)
  next
    case False
    then have nocut: "max (sint alpha) (sint r) < sint beta"
      by (simp add: word_sle_eq sint_smax not_le)
    have res: "maxLoop child C board (x # xs) m alpha beta e
               = maxLoop child C board xs (smax m r) (smax alpha r) beta e'"
      using False by (simp add: Let_def tb_def r_def e'_def)
    define R where "R = sint (fst (maxLoop child C board xs (smax m r) (smax alpha r) beta e'))"
    have p1: "smax alpha r <s beta"
      using nocut by (simp add: word_sless_alt sint_smax)
    have p2: "smax m r \<le>s smax alpha r"
      using ma by (simp add: word_sle_eq sint_smax max.coboundedI1)
    from Cons.IH [OF md p1 p2]
    have ih: "min (max (max (sint m) (sint r)) W) (sint beta) \<le> R"
             "R \<le> max (max (max (sint m) (sint r)) W) (max (sint alpha) (sint r))"
      and md': "maxDepth (snd (maxLoop child C board xs (smax m r) (smax alpha r) beta e')) = md"
      by (simp_all add: failSoft_def vs_def [symmetric] start sint_smax R_def)
    have "min (max (max (sint m) (sint (V tb))) W) (sint beta) \<le> R
          \<and> R \<le> max (max (max (sint m) (sint (V tb))) W) (sint alpha)"
      by (rule ab_step_arith [OF fs ab ma nocut ih])
    then show ?thesis
      unfolding res failSoft_def target using md' by (simp add: R_def)
  qed
qed

lemma minLoop_failSoft:
  assumes child: "\<And>e' tb a b. maxDepth e' = md \<Longrightarrow> a <s b \<Longrightarrow>
            failSoft a b (V tb) (fst (child e' tb a b))
            \<and> maxDepth (snd (child e' tb a b)) = md"
  shows "maxDepth e = md \<Longrightarrow> alpha <s beta \<Longrightarrow> beta \<le>s m \<Longrightarrow>
         failSoft alpha beta (foldl smin m (map (\<lambda>move. V (makeMove C board move)) ms))
           (fst (minLoop child C board ms m alpha beta e))
         \<and> maxDepth (snd (minLoop child C board ms m alpha beta e)) = md"
proof (induction ms arbitrary: m beta e)
  case Nil
  then show ?case
    by (simp add: failSoft_def word_sle_eq word_sless_alt)
next
  case (Cons x xs)
  define tb where "tb = makeMove C board x"
  define r where "r = fst (child e tb alpha beta)"
  define e' where "e' = snd (child e tb alpha beta)"
  define vs where "vs = map (\<lambda>move. V (makeMove C board move)) xs"
  define W where "W = sint (foldl smin INT_MAX vs)"
  from child [OF Cons.prems(1,2), of tb]
  have fs: "min (sint (V tb)) (sint beta) \<le> sint r"
           "sint r \<le> max (sint (V tb)) (sint alpha)"
    and md: "maxDepth e' = md"
    by (simp_all add: failSoft_def r_def e'_def)
  have ab: "sint alpha < sint beta" and bm: "sint beta \<le> sint m"
    using Cons.prems by (simp_all add: word_sle_eq word_sless_alt)
  have start: "\<And>z. sint (foldl smin z vs) = min (sint z) W"
    unfolding W_def by (rule foldl_smin_start) (simp add: sint_INT_MAX sint_upper)
  have target: "sint (foldl smin m (map (\<lambda>move. V (makeMove C board move)) (x # xs)))
                = min (min (sint m) (sint (V tb))) W"
    by (simp add: vs_def [symmetric] tb_def [symmetric] start sint_smin)
  show ?case
  proof (cases "smin beta r \<le>s alpha")
    case True
    then have cut: "min (sint beta) (sint r) \<le> sint alpha"
      by (simp add: word_sle_eq sint_smin)
    have res: "minLoop child C board (x # xs) m alpha beta e = (smin m r, e')"
      using True by (simp add: Let_def tb_def r_def e'_def)
    have "min (min (min (sint m) (sint (V tb))) W) (sint beta) \<le> min (sint m) (sint r)
          \<and> min (sint m) (sint r) \<le> max (min (min (sint m) (sint (V tb))) W) (sint alpha)"
      by (rule ba_cut_arith [OF fs ab bm cut])
    then show ?thesis
      unfolding res failSoft_def target using md by (simp add: sint_smin)
  next
    case False
    then have nocut: "sint alpha < min (sint beta) (sint r)"
      by (simp add: word_sle_eq sint_smin not_le)
    have res: "minLoop child C board (x # xs) m alpha beta e
               = minLoop child C board xs (smin m r) alpha (smin beta r) e'"
      using False by (simp add: Let_def tb_def r_def e'_def)
    define R where "R = sint (fst (minLoop child C board xs (smin m r) alpha (smin beta r) e'))"
    have p1: "alpha <s smin beta r"
      using nocut by (simp add: word_sless_alt sint_smin)
    have p2: "smin beta r \<le>s smin m r"
      using bm by (simp add: word_sle_eq sint_smin min.coboundedI1)
    from Cons.IH [OF md p1 p2]
    have ih: "min (min (min (sint m) (sint r)) W) (min (sint beta) (sint r)) \<le> R"
             "R \<le> max (min (min (sint m) (sint r)) W) (sint alpha)"
      and md': "maxDepth (snd (minLoop child C board xs (smin m r) alpha (smin beta r) e')) = md"
      by (simp_all add: failSoft_def vs_def [symmetric] start sint_smin R_def)
    have "min (min (min (sint m) (sint (V tb))) W) (sint beta) \<le> R
          \<and> R \<le> max (min (min (sint m) (sint (V tb))) W) (sint alpha)"
      by (rule ba_step_arith [OF fs ab bm nocut ih])
    then show ?thesis
      unfolding res failSoft_def target using md' by (simp add: R_def)
  qed
qed

lemma failSoft_refl: "failSoft alpha beta v v"
  by (simp add: failSoft_def)

lemma minimax_failSoft:
  "alpha <s beta \<Longrightarrow>
   failSoft alpha beta (gameValue C (maxDepth e) board depth mx)
     (fst (minimax C e board depth alpha beta mx))
   \<and> maxDepth (snd (minimax C e board depth alpha beta mx)) = maxDepth e"
proof (induction C e board depth alpha beta mx rule: minimax.induct)
  case (1 C e board depth alpha beta mx)
  let ?e1 = "e\<lparr>nodesSearched := nodesSearched e + 1\<rparr>"
  let ?ms = "generateLegalMoves C board"
  show ?case
  proof (cases "depth = 0 \<or> ?ms = []")
    case True
    then show ?thesis
      by (simp add: minimax_terminal gameValue_terminal failSoft_refl)
  next
    case False
    then have d: "depth \<noteq> 0" and ms: "?ms \<noteq> []" by simp_all
    have e1: "maxDepth ?e1 = maxDepth e" by simp
    show ?thesis
    proof (cases mx)
      case True
      have child: "\<And>e' tb a b. maxDepth e' = maxDepth e \<Longrightarrow> a <s b \<Longrightarrow>
          failSoft a b (gameValue C (maxDepth e) tb (depth - 1) False)
            (fst (minimax C e' tb (depth - 1) a b False))
          \<and> maxDepth (snd (minimax C e' tb (depth - 1) a b False)) = maxDepth e"
        using "1.IH"(1) [OF refl d refl ms True] by metis
      have bot: "INT_MIN \<le>s alpha"
        by (simp add: word_sle_eq sint_INT_MIN sint_lower)
      show ?thesis
        using maxLoop_failSoft
          [where child = "\<lambda>e' tb a b. minimax C e' tb (depth - 1) a b False"
             and V = "\<lambda>tb. gameValue C (maxDepth e) tb (depth - 1) False"
             and md = "maxDepth e", OF child e1 "1.prems" bot, of C board ?ms] True
        by (simp add: minimax_unfold_max [OF d ms] gameValue_unfold_max [OF d ms])
    next
      case False
      have child: "\<And>e' tb a b. maxDepth e' = maxDepth e \<Longrightarrow> a <s b \<Longrightarrow>
          failSoft a b (gameValue C (maxDepth e) tb (depth - 1) True)
            (fst (minimax C e' tb (depth - 1) a b True))
          \<and> maxDepth (snd (minimax C e' tb (depth - 1) a b True)) = maxDepth e"
        using "1.IH"(2) [OF refl d refl ms False] by metis
      have top: "beta \<le>s INT_MAX"
        by (simp add: word_sle_eq sint_INT_MAX sint_upper)
      show ?thesis
        using minLoop_failSoft
          [where child = "\<lambda>e' tb a b. minimax C e' tb (depth - 1) a b True"
             and V = "\<lambda>tb. gameValue C (maxDepth e) tb (depth - 1) True"
             and md = "maxDepth e", OF child e1 "1.prems" top, of C board ?ms] False
        by (simp add: minimax_unfold_min [OF d ms] gameValue_unfold_min [OF d ms])
    qed
  qed
qed

lemma full_window: "INT_MIN <s INT_MAX"
  by (simp add: word_sless_alt sint_INT_MIN sint_INT_MAX)

lemma failSoft_full_window: "failSoft INT_MIN INT_MAX v r \<Longrightarrow> r = v"
proof -
  assume "failSoft INT_MIN INT_MAX v r"
  then have "min (sint v) 2147483647 \<le> sint r" "sint r \<le> max (sint v) (- 2147483648)"
    by (simp_all add: failSoft_def sint_INT_MIN sint_INT_MAX)
  with sint_lower [of v] sint_upper [of v] have "sint r = sint v" by linarith
  then show ?thesis by (simp add: sint_inject)
qed

lemma minimax_full_window:
  "fst (minimax C e board depth INT_MIN INT_MAX mx) = gameValue C (maxDepth e) board depth mx"
  using minimax_failSoft [OF full_window, of C e board depth mx]
  by (auto dest: failSoft_full_window)

lemma minimax_maxDepth:
  "alpha <s beta \<Longrightarrow> maxDepth (snd (minimax C e board depth alpha beta mx)) = maxDepth e"
  using minimax_failSoft [of alpha beta C e board depth mx] by simp

text \<open>
  C1: for every board, every depth and either player, \<open>minimax\<close> called with the full
  window \<open>(INT_MIN, INT_MAX)\<close> returns the same score as the search with pruning
  disabled; the two may differ only in the node counter they leave in the engine.
\<close>

theorem alpha_beta_equals_unpruned:
  "fst (minimax C e board depth INT_MIN INT_MAX maximizingPlayer)
     = fst (minimaxNoPrune C e board depth maximizingPlayer)"
  by (simp add: minimax_full_window minimaxNoPrune_gameValue)

section \<open>Terminal positions\<close>

lemma sint_mate_max: "0 \<le> sint (p :: cint) \<Longrightarrow> sint (- 20000 + p) = - 20000 + sint p"
proof -
  assume p: "0 \<le> sint p"
  have "sint (- 20000 + p) = signed_take_bit 31 (sint (- 20000 :: cint) + sint p)"
    by (simp add: sint_word_ariths word_size)
  also have "sint (- 20000 :: cint) = - 20000" by simp
  also have "signed_take_bit 31 (- 20000 + sint p) = - 20000 + sint p"
    using p sint_upper [of p] by (intro signed_take_bit_int_eq_self) simp_all
  finally show ?thesis .
qed

lemma sint_mate_min: "0 \<le> sint (p :: cint) \<Longrightarrow> sint (20000 - p) = 20000 - sint p"
proof -
  assume p: "0 \<le> sint p"
  have "sint (20000 - p) = signed_take_bit 31 (sint (20000 :: cint) - sint p)"
    by (simp add: sint_word_ariths word_size)
  also have "sint (20000 :: cint) = 20000" by simp
  also have "signed_take_bit 31 (20000 - sint p) = 20000 - sint p"
    using p sint_upper [of p] by (intro signed_take_bit_int_eq_self) simp_all
  finally show ?thesis .
qed

text \<open>
  C2: at any depth other than 0, a position without legal moves whose side to move is in
  check scores \<open>-(20000 - (maxDepth - depth))\<close> for the maximizing player and
  \<open>20000 - (maxDepth - depth)\<close> for the minimizing one.  Of two such mates, the one
  fewer plies from the root (its ply distance \<open>maxDepth - depth\<close> not negative) scores
  strictly lower for the maximizing player and strictly higher for the minimizing one:
  its distance from -20000, respectively 20000, is its ply distance.
\<close>

theorem checkmate_score:
  assumes "depth \<noteq> 0" and "generateLegalMoves C board = []" and "isInCheck C board"
  shows "fst (minimax C e board depth alpha beta maximizingPlayer)
           = (if maximizingPlayer then - (20000 - (maxDepth e - depth))
              else 20000 - (maxDepth e - depth))
         \<and> (\<forall>board' depth' alpha' beta'.
               depth' \<noteq> 0 \<and> generateLegalMoves C board' = [] \<and> isInCheck C board'
               \<and> 0 \<le> sint (maxDepth e - depth)
               \<and> sint (maxDepth e - depth) < sint (maxDepth e - depth')
               \<longrightarrow>
                 sint (fst (minimax C e board depth alpha beta True))
                   = - 20000 + sint (maxDepth e - depth)
               \<and> sint (fst (minimax C e board' depth' alpha' beta' True))
                   = - 20000 + sint (maxDepth e - depth')
               \<and> sint (fst (minimax C e board depth alpha beta True))
                   < sint (fst (minimax C e board' depth' alpha' beta' True))
               \<and> sint (fst (minimax C e board depth alpha beta False))
                   = 20000 - sint (maxDepth e - depth)
               \<and> sint (fst (minimax C e board' depth' alpha' beta' False))
                   = 20000 - sint (maxDepth e - depth')
               \<and> sint (fst (minimax C e board' depth' alpha' beta' False))
                   < sint (fst (minimax C e board depth alpha beta False)))"
proof (intro conjI allI impI)
  show "fst (minimax C e board depth alpha beta maximizingPlayer)
           = (if maximizingPlayer then - (20000 - (maxDepth e - depth))
              else 20000 - (maxDepth e - depth))"
    using assms by (simp add: minimax_terminal terminalValue_def)
next
  fix board' depth' alpha' beta'
  assume h: "depth' \<noteq> 0 \<and> generateLegalMoves C board' = [] \<and> isInCheck C board'
               \<and> 0 \<le> sint (maxDepth e - depth)
               \<and> sint (maxDepth e - depth) < sint (maxDepth e - depth')"
  then have p: "0 \<le> sint (maxDepth e - depth)" and p': "0 \<le> sint (maxDepth e - depth')"
    and lt: "sint (maxDepth e - depth) < sint (maxDepth e - depth')" by simp_all
  have v: "\<And>a b mx. fst (minimax C e board depth a b mx)
             = (if mx then - 20000 + (maxDepth e - depth) else 20000 - (maxDepth e - depth))"
    using assms by (simp add: minimax_terminal terminalValue_def)
  have v': "\<And>a b mx. fst (minimax C e board' depth' a b mx)
             = (if mx then - 20000 + (maxDepth e - depth') else 20000 - (maxDepth e - depth'))"
    using h by (simp add: minimax_terminal terminalValue_def)
  show "sint (fst (minimax C e board depth alpha beta True))
          = - 20000 + sint (maxDepth e - depth)"
    by (simp only: v if_True sint_mate_max [OF p])
  show "sint (fst (minimax C e board' depth' alpha' beta' True))
          = - 20000 + sint (maxDepth e - depth')"
    by (simp only: v' if_True sint_mate_max [OF p'])
  show "sint (fst (minimax C e board depth alpha beta True))
          < sint (fst (minimax C e board' depth' alpha' beta' True))"
    using lt by (simp only: v v' if_True sint_mate_max [OF p] sint_mate_max [OF p'])
      (simp_all)?
  show "sint (fst (minimax C e board depth alpha beta False))
          = 20000 - sint (maxDepth e - depth)"
    by (simp only: v if_False sint_mate_min [OF p])
  show "sint (fst (minimax C e board' depth' alpha' beta' False))
          = 20000 - sint (maxDepth e - depth')"
    by (simp only: v' if_False sint_mate_min [OF p'])
  show "sint (fst (minimax C e board' depth' alpha' beta' False))
          < sint (fst (minimax C e board depth alpha beta False))"
    using lt by (simp only: v v' if_False sint_mate_min [OF p] sint_mate_min [OF p'])
      (simp_all)?
qed

theorem checkmate_score_witness:
  "fst (minimax testCollab testEngine mateBoard 2 INT_MIN INT_MAX False) = 19999
   \<and> fst (minimax testCollab testEngine mateBoard 1 INT_MIN INT_MAX False) = 19998
   \<and> fst (minimax testCollab testEngine mateBoard 2 INT_MIN INT_MAX True) = - 19999
   \<and> sint (fst (minimax testCollab testEngine mateBoard 1 INT_MIN INT_MAX False))
       < sint (fst (minimax testCollab testEngine mateBoard 2 INT_MIN INT_MAX False))
   \<and> sint (fst (minimax testCollab testEngine mateBoard 2 INT_MIN INT_MAX True))
       < sint (fst (minimax testCollab testEngine mateBoard 1 INT_MIN INT_MAX True))"
proof -
  have d: "(2 :: cint) \<noteq> 0" by simp
  have ms: "generateLegalMoves testCollab mateBoard = []"
    by (simp add: testCollab_def mateBoard_def)
  have ch: "isInCheck testCollab mateBoard"
    by (simp add: testCollab_def mateBoard_def)
  have md: "maxDepth testEngine = 3" by (simp add: testEngine_def)
  note c = checkmate_score [OF d ms ch, of testEngine INT_MIN INT_MAX]
  have f: "fst (minimax testCollab testEngine mateBoard 2 INT_MIN INT_MAX False) = 19999"
    and t: "fst (minimax testCollab testEngine mateBoard 2 INT_MIN INT_MAX True) = - 19999"
    using c [of False] c [of True] by (simp_all add: md)
  have "(1 :: cint) \<noteq> 0 \<and> generateLegalMoves testCollab mateBoard = []
        \<and> isInCheck testCollab mateBoard
        \<and> 0 \<le> sint (maxDepth testEngine - 2)
        \<and> sint (maxDepth testEngine - 2) < sint (maxDepth testEngine - 1)"
    using ms ch by (simp add: md)
  with c [of True] have o:
    "sint (fst (minimax testCollab testEngine mateBoard 1 INT_MIN INT_MAX False))
       = 20000 - sint (maxDepth testEngine - 1)"
    "sint (fst (minimax testCollab testEngine mateBoard 1 INT_MIN INT_MAX False))
       < sint (fst (minimax testCollab testEngine mateBoard 2 INT_MIN INT_MAX False))"
    "sint (fst (minimax testCollab testEngine mateBoard 2 INT_MIN INT_MAX True))
       < sint (fst (minimax testCollab testEngine mateBoard 1 INT_MIN INT_MAX True))"
    by blast+
  have "sint (fst (minimax testCollab testEngine mateBoard 1 INT_MIN INT_MAX False))
          = sint (19998 :: cint)"
    using o(1) by (simp add: md)
  then have g: "fst (minimax testCollab testEngine mateBoard 1 INT_MIN INT_MAX False) = 19998"
    by (simp only: sint_inject)
  show ?thesis using f t g o(2,3) by simp
qed





section \<open>The root search\<close>

lemma maxLoop_frame:
  assumes child: "\<And>e' tb a b. \<exists>n. snd (child e' tb a b) = e'\<lparr>nodesSearched := n\<rparr>"
  shows "\<exists>n. snd (maxLoop child C board ms m alpha beta e) = e\<lparr>nodesSearched := n\<rparr>"
proof (induction ms arbitrary: m alpha e)
  case Nil
  have "e = e\<lparr>nodesSearched := nodesSearched e\<rparr>" by simp
  then show ?case by (metis maxLoop.simps(1) snd_conv)
next
  case (Cons x xs)
  have "\<exists>n. snd (child e (makeMove C board x) alpha beta) = e\<lparr>nodesSearched := n\<rparr>"
    by (rule child)
  then obtain n1 where n1: "snd (child e (makeMove C board x) alpha beta) = e\<lparr>nodesSearched := n1\<rparr>" ..
  show ?case
  proof (cases "beta \<le>s smax alpha (fst (child e (makeMove C board x) alpha beta))")
    case True
    then show ?thesis using n1 by (simp add: Let_def) blast
  next
    case False
    obtain n where "snd (maxLoop child C board xs
        (smax m (fst (child e (makeMove C board x) alpha beta)))
        (smax alpha (fst (child e (makeMove C board x) alpha beta))) beta
        (e\<lparr>nodesSearched := n1\<rparr>)) = e\<lparr>nodesSearched := n1\<rparr>\<lparr>nodesSearched := n\<rparr>"
      using Cons.IH by blast
    then show ?thesis using False n1 by (simp add: Let_def) blast
  qed
qed

lemma minLoop_frame:
  assumes child: "\<And>e' tb a b. \<exists>n. snd (child e' tb a b) = e'\<lparr>nodesSearched := n\<rparr>"
  shows "\<exists>n. snd (minLoop child C board ms m alpha beta e) = e\<lparr>nodesSearched := n\<rparr>"
proof (induction ms arbitrary: m beta e)
  case Nil
  have "e = e\<lparr>nodesSearched := nodesSearched e\<rparr>" by simp
  then show ?case by (metis minLoop.simps(1) snd_conv)
next
  case (Cons x xs)
  have "\<exists>n. snd (child e (makeMove C board x) alpha beta) = e\<lparr>nodesSearched := n\<rparr>"
    by (rule child)
  then obtain n1 where n1: "snd (child e (makeMove C board x) alpha beta) = e\<lparr>nodesSearched := n1\<rparr>" ..
  show ?case
  proof (cases "smin beta (fst (child e (makeMove C board x) alpha beta)) \<le>s alpha")
    case True
    then show ?thesis using n1 by (simp add: Let_def) blast
  next
    case False
    obtain n where "snd (minLoop child C board xs
        (smin m (fst (child e (makeMove C board x) alpha beta))) alpha
        (smin beta (fst (child e (makeMove C board x) alpha beta)))
        (e\<lparr>nodesSearched := n1\<rparr>)) = e\<lparr>nodesSearched := n1\<rparr>\<lparr>nodesSearched := n\<rparr>"
      using Cons.IH by blast
    then show ?thesis using False n1 by (simp add: Let_def) blast
  qed
qed

lemma minimax_frame:
  "\<exists>n. snd (minimax C e board depth alpha beta mx) = e\<lparr>nodesSearched := n\<rparr>"
proof (induction C e board depth alpha beta mx rule: minimax.induct)
  case (1 C e board depth alpha beta mx)
  let ?ms = "generateLegalMoves C board"
  show ?case
  proof (cases "depth = 0 \<or> ?ms = []")
    case True
    then show ?thesis by (simp add: minimax_terminal) blast
  next
    case False
    then have d: "depth \<noteq> 0" and ms: "?ms \<noteq> []" by simp_all
    show ?thesis
    proof (cases mx)
      case True
      have child: "\<And>e' tb a b. \<exists>n. snd (minimax C e' tb (depth - 1) a b False)
                     = e'\<lparr>nodesSearched := n\<rparr>"
        using "1.IH"(1) [OF refl d refl ms True] by metis
      obtain n where "snd (maxLoop (\<lambda>e' tb a b. minimax C e' tb (depth - 1) a b False) C board
          ?ms INT_MIN alpha beta (e\<lparr>nodesSearched := nodesSearched e + 1\<rparr>))
          = e\<lparr>nodesSearched := nodesSearched e + 1\<rparr>\<lparr>nodesSearched := n\<rparr>"
        using maxLoop_frame [where child = "\<lambda>e' tb a b. minimax C e' tb (depth - 1) a b False",
                OF child] by blast
      then show ?thesis using True by (simp add: minimax_unfold_max [OF d ms]) blast
    next
      case False
      have child: "\<And>e' tb a b. \<exists>n. snd (minimax C e' tb (depth - 1) a b True)
                     = e'\<lparr>nodesSearched := n\<rparr>"
        using "1.IH"(2) [OF refl d refl ms False] by metis
      obtain n where "snd (minLoop (\<lambda>e' tb a b. minimax C e' tb (depth - 1) a b True) C board
          ?ms INT_MAX alpha beta (e\<lparr>nodesSearched := nodesSearched e + 1\<rparr>))
          = e\<lparr>nodesSearched := nodesSearched e + 1\<rparr>\<lparr>nodesSearched := n\<rparr>"
        using minLoop_frame [where child = "\<lambda>e' tb a b. minimax C e' tb (depth - 1) a b True",
                OF child] by blast
      then show ?thesis using False by (simp add: minimax_unfold_min [OF d ms]) blast
    qed
  qed
qed

lemma minimax_keeps:
  "maxDepth (snd (minimax C e board depth alpha beta mx)) = maxDepth e"
  "startTime (snd (minimax C e board depth alpha beta mx)) = startTime e"
proof -
  have "\<exists>n. snd (minimax C e board depth alpha beta mx) = e\<lparr>nodesSearched := n\<rparr>"
    by (rule minimax_frame)
  then obtain n where "snd (minimax C e board depth alpha beta mx) = e\<lparr>nodesSearched := n\<rparr>" ..
  then show "maxDepth (snd (minimax C e board depth alpha beta mx)) = maxDepth e"
    and "startTime (snd (minimax C e board depth alpha beta mx)) = startTime e"
    by simp_all
qed

lemma rootScore_cong:
  "maxDepth e' = maxDepth e \<Longrightarrow> rootScore C e' board = rootScore C e board"
  by (rule ext) (simp add: rootScore_def minimax_full_window)

lemma improves_trans:
  "improves side a b \<Longrightarrow> improves side b c \<Longrightarrow> improves side a c"
  by (auto simp: improves_def word_sless_alt)

lemma improves_after_not:
  "improves side a b \<Longrightarrow> \<not> improves side c b \<Longrightarrow> improves side a c"
  by (cases side) (auto simp: improves_def word_sless_alt)

lemma not_improves_after:
  "\<not> improves side a b \<Longrightarrow> improves side c b \<Longrightarrow> \<not> improves side a c"
  by (cases side) (auto simp: improves_def word_sless_alt)

lemma rootLoop_pick:
  "\<exists>bm' bs' e'.
     rootLoop C board ms bm bs e = (bm', bs', e')
     \<and> maxDepth e' = maxDepth e \<and> startTime e' = startTime e
     \<and> ((bm' = bm \<and> bs' = bs
          \<and> (\<forall>m\<in>set ms. \<not> improves (getSideToMove C board) (rootScore C e board m) bs))
         \<or> (\<exists>pre post. ms = pre @ bm' # post \<and> bs' = rootScore C e board bm'
              \<and> improves (getSideToMove C board) bs' bs
              \<and> (\<forall>m\<in>set pre. improves (getSideToMove C board) bs' (rootScore C e board m))
              \<and> (\<forall>m\<in>set post. \<not> improves (getSideToMove C board) (rootScore C e board m) bs')))"
proof (induction ms arbitrary: bm bs e)
  case Nil
  show ?case by simp
next
  case (Cons x xs)
  let ?side = "getSideToMove C board"
  let ?S = "rootScore C e board"
  define r where
    "r = minimax C e (makeMove C board x) (maxDepth e - 1) INT_MIN INT_MAX (?side \<noteq> WHITE)"
  define e1 where "e1 = snd r"
  have md1: "maxDepth e1 = maxDepth e" and st1: "startTime e1 = startTime e"
    by (simp_all add: e1_def r_def minimax_keeps)
  have sx: "fst r = ?S x" by (simp add: rootScore_def r_def)
  have S1: "rootScore C e1 board = ?S" by (rule rootScore_cong [OF md1])
  show ?case
  proof (cases "improves ?side (?S x) bs")
    case True
    then have res: "rootLoop C board (x # xs) bm bs e = rootLoop C board xs x (?S x) e1"
      using sx by (auto simp: Let_def improves_def r_def [symmetric] e1_def)
    from Cons.IH [of x "?S x" e1, unfolded S1 md1 st1]
    obtain bm' bs' e' where
      eq: "rootLoop C board xs x (?S x) e1 = (bm', bs', e')"
      and keep: "maxDepth e' = maxDepth e" "startTime e' = startTime e"
      and alt: "(bm' = x \<and> bs' = ?S x \<and> (\<forall>m\<in>set xs. \<not> improves ?side (?S m) (?S x)))
         \<or> (\<exists>pre post. xs = pre @ bm' # post \<and> bs' = ?S bm'
              \<and> improves ?side bs' (?S x)
              \<and> (\<forall>m\<in>set pre. improves ?side bs' (?S m))
              \<and> (\<forall>m\<in>set post. \<not> improves ?side (?S m) bs'))"
      by blast
    from alt have "\<exists>pre post. x # xs = pre @ bm' # post \<and> bs' = ?S bm'
              \<and> improves ?side bs' bs
              \<and> (\<forall>m\<in>set pre. improves ?side bs' (?S m))
              \<and> (\<forall>m\<in>set post. \<not> improves ?side (?S m) bs')"
    proof
      assume a: "bm' = x \<and> bs' = ?S x \<and> (\<forall>m\<in>set xs. \<not> improves ?side (?S m) (?S x))"
      then have "x # xs = [] @ bm' # xs \<and> bs' = ?S bm' \<and> improves ?side bs' bs
              \<and> (\<forall>m\<in>set []. improves ?side bs' (?S m))
              \<and> (\<forall>m\<in>set xs. \<not> improves ?side (?S m) bs')"
        using True by simp
      then show ?thesis by blast
    next
      assume "\<exists>pre post. xs = pre @ bm' # post \<and> bs' = ?S bm'
              \<and> improves ?side bs' (?S x)
              \<and> (\<forall>m\<in>set pre. improves ?side bs' (?S m))
              \<and> (\<forall>m\<in>set post. \<not> improves ?side (?S m) bs')"
      then obtain pre post where p: "xs = pre @ bm' # post" "bs' = ?S bm'"
          "improves ?side bs' (?S x)" "\<forall>m\<in>set pre. improves ?side bs' (?S m)"
          "\<forall>m\<in>set post. \<not> improves ?side (?S m) bs'" by blast
      have "x # xs = (x # pre) @ bm' # post \<and> bs' = ?S bm' \<and> improves ?side bs' bs
              \<and> (\<forall>m\<in>set (x # pre). improves ?side bs' (?S m))
              \<and> (\<forall>m\<in>set post. \<not> improves ?side (?S m) bs')"
        using p improves_trans [OF p(3) True] by simp
      then show ?thesis by blast
    qed
    then show ?thesis unfolding res eq using keep by blast
  next
    case False
    then have res: "rootLoop C board (x # xs) bm bs e = rootLoop C board xs bm bs e1"
      using sx by (auto simp: Let_def improves_def r_def [symmetric] e1_def)
    from Cons.IH [of bm bs e1, unfolded S1 md1 st1]
    obtain bm' bs' e' where
      eq: "rootLoop C board xs bm bs e1 = (bm', bs', e')"
      and keep: "maxDepth e' = maxDepth e" "startTime e' = startTime e"
      and alt: "(bm' = bm \<and> bs' = bs \<and> (\<forall>m\<in>set xs. \<not> improves ?side (?S m) bs))
         \<or> (\<exists>pre post. xs = pre @ bm' # post \<and> bs' = ?S bm'
              \<and> improves ?side bs' bs
              \<and> (\<forall>m\<in>set pre. improves ?side bs' (?S m))
              \<and> (\<forall>m\<in>set post. \<not> improves ?side (?S m) bs'))"
      by blast
    from alt have "(bm' = bm \<and> bs' = bs \<and> (\<forall>m\<in>set (x # xs). \<not> improves ?side (?S m) bs))
         \<or> (\<exists>pre post. x # xs = pre @ bm' # post \<and> bs' = ?S bm'
              \<and> improves ?side bs' bs
              \<and> (\<forall>m\<in>set pre. improves ?side bs' (?S m))
              \<and> (\<forall>m\<in>set post. \<not> improves ?side (?S m) bs'))"
    proof
      assume "bm' = bm \<and> bs' = bs \<and> (\<forall>m\<in>set xs. \<not> improves ?side (?S m) bs)"
      then show ?thesis using False by simp
    next
      assume "\<exists>pre post. xs = pre @ bm' # post \<and> bs' = ?S bm'
              \<and> improves ?side bs' bs
              \<and> (\<forall>m\<in>set pre. improves ?side bs' (?S m))
              \<and> (\<forall>m\<in>set post. \<not> improves ?side (?S m) bs')"
      then obtain pre post where p: "xs = pre @ bm' # post" "bs' = ?S bm'"
          "improves ?side bs' bs" "\<forall>m\<in>set pre. improves ?side bs' (?S m)"
          "\<forall>m\<in>set post. \<not> improves ?side (?S m) bs'" by blast
      have "x # xs = (x # pre) @ bm' # post \<and> bs' = ?S bm' \<and> improves ?side bs' bs
              \<and> (\<forall>m\<in>set (x # pre). improves ?side bs' (?S m))
              \<and> (\<forall>m\<in>set post. \<not> improves ?side (?S m) bs')"
        using p improves_after_not [OF p(3) False] by simp
      then show ?thesis by blast
    qed
    then show ?thesis unfolding res eq using keep by blast
  qed
qed

lemma sless_INT_MIN: "\<not> INT_MIN <s x \<Longrightarrow> x = INT_MIN"
  using sint_lower [of x] by (simp add: word_sless_alt sint_INT_MIN sint_inject [symmetric])

lemma sless_INT_MAX: "\<not> x <s INT_MAX \<Longrightarrow> x = INT_MAX"
  using sint_upper [of x] by (simp add: word_sless_alt sint_INT_MAX sint_inject [symmetric])

lemma not_improves_refl: "\<not> improves side a a"
  by (simp add: improves_def word_sless_alt)

lemma getBestMove_result:
  assumes ms: "generateLegalMoves C board = first # rest"
  shows "\<exists>best e'.
     getBestMove C now0 now1 e board
       = (best, e',
          [OutStr ''Nodes searched: '', OutInt (nodesSearched e'), Endl,
           OutStr ''Time taken: '', OutLong (toMillis C (now1 - now0)), OutStr '' ms'', Endl,
           OutStr ''Best move: '', OutStr (toAlgebraic C best),
           OutStr '' with score: '', OutInt (rootScore C e board best), Endl])
     \<and> (\<exists>pre post. first # rest = pre @ best # post
          \<and> (\<forall>m\<in>set pre. improves (getSideToMove C board)
                 (rootScore C e board best) (rootScore C e board m))
          \<and> (\<forall>m\<in>set post. \<not> improves (getSideToMove C board)
                 (rootScore C e board m) (rootScore C e board best)))"
proof -
  let ?side = "getSideToMove C board"
  let ?S = "rootScore C e board"
  define e2 where "e2 = (resetNodesSearched e)\<lparr>startTime := now0\<rparr>"
  define init where "init = (if ?side = WHITE then INT_MIN else INT_MAX)"
  have md2: "maxDepth e2 = maxDepth e" and st2: "startTime e2 = now0"
    by (simp_all add: e2_def resetNodesSearched_def)
  have S2: "rootScore C e2 board = ?S" by (rule rootScore_cong [OF md2])
  from rootLoop_pick [of C board "first # rest" first init e2, unfolded S2 md2 st2]
  obtain bm' bs' e' where
    eq: "rootLoop C board (first # rest) first init e2 = (bm', bs', e')"
    and st: "startTime e' = now0"
    and alt: "(bm' = first \<and> bs' = init
                \<and> (\<forall>m\<in>set (first # rest). \<not> improves ?side (?S m) init))
         \<or> (\<exists>pre post. first # rest = pre @ bm' # post \<and> bs' = ?S bm'
              \<and> improves ?side bs' init
              \<and> (\<forall>m\<in>set pre. improves ?side bs' (?S m))
              \<and> (\<forall>m\<in>set post. \<not> improves ?side (?S m) bs'))"
    by blast
  have out: "getBestMove C now0 now1 e board
       = (bm', e',
          [OutStr ''Nodes searched: '', OutInt (nodesSearched e'), Endl,
           OutStr ''Time taken: '', OutLong (toMillis C (now1 - now0)), OutStr '' ms'', Endl,
           OutStr ''Best move: '', OutStr (toAlgebraic C bm'),
           OutStr '' with score: '', OutInt bs', Endl])"
    using eq st
    by (simp add: getBestMove_def ms Let_def e2_def [symmetric] init_def [symmetric]
             del: rootLoop.simps)
  from alt have pick: "bs' = ?S bm' \<and> (\<exists>pre post. first # rest = pre @ bm' # post
          \<and> (\<forall>m\<in>set pre. improves ?side (?S bm') (?S m))
          \<and> (\<forall>m\<in>set post. \<not> improves ?side (?S m) (?S bm')))"
  proof
    assume a: "bm' = first \<and> bs' = init
                \<and> (\<forall>m\<in>set (first # rest). \<not> improves ?side (?S m) init)"
    have all: "\<And>m. m \<in> set (first # rest) \<Longrightarrow> ?S m = init"
    proof -
      fix m assume "m \<in> set (first # rest)"
      with a have n: "\<not> improves ?side (?S m) init" by blast
      show "?S m = init"
      proof (cases ?side)
        case WHITE
        with n show ?thesis by (simp add: improves_def init_def sless_INT_MIN)
      next
        case BLACK
        with n show ?thesis by (simp add: improves_def init_def sless_INT_MAX)
      qed
    qed
    have "first # rest = [] @ bm' # rest" using a by simp
    moreover have "\<forall>m\<in>set rest. \<not> improves ?side (?S m) (?S bm')"
      using all a by (simp add: not_improves_refl)
    moreover have "bs' = ?S bm'" using all [of first] a by simp
    ultimately show ?thesis by force
  next
    assume "\<exists>pre post. first # rest = pre @ bm' # post \<and> bs' = ?S bm'
              \<and> improves ?side bs' init
              \<and> (\<forall>m\<in>set pre. improves ?side bs' (?S m))
              \<and> (\<forall>m\<in>set post. \<not> improves ?side (?S m) bs')"
    then show ?thesis by blast
  qed
  show ?thesis using out pick by blast
qed

text \<open>
  C10: when the root position has no legal move, \<open>getBestMove\<close> returns the
  default-constructed move, writes nothing, and leaves the engine with the node counter
  at 0 (reset at entry, and no search call has counted a node) and the start time set.
\<close>

theorem getBestMove_no_legal_moves:
  assumes "generateLegalMoves C board = []"
  shows "getBestMove C now0 now1 e board
           = (nullMove C, e\<lparr>nodesSearched := 0, startTime := now0\<rparr>, [])
         \<and> getNodesSearched (fst (snd (getBestMove C now0 now1 e board))) = 0"
  using assms by (simp add: getBestMove_def resetNodesSearched_def getNodesSearched_def)

theorem getBestMove_no_legal_moves_witness:
  "generateLegalMoves testCollab stalemateBoard = []
   \<and> getBestMove testCollab 10 15 testEngine stalemateBoard
       = (Move (Position 0 0) (Position 0 0),
          \<lparr>maxDepth = 3, nodesSearched = 0, startTime = 10\<rparr>, [])
   \<and> getNodesSearched (fst (snd (getBestMove testCollab 10 15 testEngine stalemateBoard))) = 0"
proof -
  have ms: "generateLegalMoves testCollab stalemateBoard = []"
    by (simp add: testCollab_def stalemateBoard_def)
  have nm: "nullMove testCollab = Move (Position 0 0) (Position 0 0)"
    by (simp add: testCollab_def)
  have en: "testEngine\<lparr>nodesSearched := 0, startTime := 10\<rparr>
              = \<lparr>maxDepth = 3, nodesSearched = 0, startTime = 10\<rparr>"
    by (simp add: testEngine_def)
  note r = getBestMove_no_legal_moves [OF ms, of 10 15 testEngine, unfolded nm en]
  from r ms show ?thesis by blast
qed

text \<open>
  C4: when the root position has a legal move, the move \<open>getBestMove\<close> returns splits
  the generated moves into those before it, each with a score the returned move's score
  strictly improves on (\<open>>\<close> for WHITE to move, \<open><\<close> for BLACK), and those after it,
  none of which strictly improves on the returned move's score: among the moves with the
  best score it is the first generated.  A single legal move is returned whatever its
  score.
\<close>

theorem getBestMove_first_among_best:
  assumes "generateLegalMoves C board \<noteq> []"
  shows "(\<exists>pre post.
            generateLegalMoves C board = pre @ fst (getBestMove C now0 now1 e board) # post
            \<and> (\<forall>m\<in>set pre. improves (getSideToMove C board)
                   (rootScore C e board (fst (getBestMove C now0 now1 e board)))
                   (rootScore C e board m))
            \<and> (\<forall>m\<in>set post. \<not> improves (getSideToMove C board)
                   (rootScore C e board m)
                   (rootScore C e board (fst (getBestMove C now0 now1 e board)))))
         \<and> (\<forall>only. generateLegalMoves C board = [only]
               \<longrightarrow> fst (getBestMove C now0 now1 e board) = only)"
proof -
  from assms obtain first rest where ms: "generateLegalMoves C board = first # rest"
    by (cases "generateLegalMoves C board") simp_all
  from getBestMove_result [OF ms, of now0 now1 e]
  obtain best e' out where
    r: "getBestMove C now0 now1 e board = (best, e', out)"
    and sp: "\<exists>pre post. first # rest = pre @ best # post
          \<and> (\<forall>m\<in>set pre. improves (getSideToMove C board)
                 (rootScore C e board best) (rootScore C e board m))
          \<and> (\<forall>m\<in>set post. \<not> improves (getSideToMove C board)
                 (rootScore C e board m) (rootScore C e board best))"
    by blast
  have one: "\<forall>only. generateLegalMoves C board = [only] \<longrightarrow> best = only"
  proof (intro allI impI)
    fix only assume "generateLegalMoves C board = [only]"
    with ms sp obtain pre post where "[only] = pre @ best # post" by auto
    then show "best = only" by (cases pre) simp_all
  qed
  show ?thesis using sp one by (simp add: r ms)
qed

lemma kpBoard_search:
  "getBestMove testCollab 10 15 shallowEngine kpBoard
     = (Move (Position 7 1) (Position 7 2),
        \<lparr>maxDepth = 1, nodesSearched = 3, startTime = 10\<rparr>,
        [OutStr ''Nodes searched: '', OutInt 3, Endl,
         OutStr ''Time taken: '', OutLong 5, OutStr '' ms'', Endl,
         OutStr ''Best move: '', OutStr ''h2h3'',
         OutStr '' with score: '', OutInt 210, Endl])"
  by code_simp

lemma kpBoard_scores:
  "map (rootScore testCollab shallowEngine kpBoard) (generateLegalMoves testCollab kpBoard)
     = [150, 210, 210]"
  by code_simp

lemma kpBoard_moves:
  "generateLegalMoves testCollab kpBoard
     = [Move (Position 0 0) (Position 0 1), Move (Position 7 1) (Position 7 2),
        Move (Position 7 1) (Position 7 3)]"
  by (simp add: testCollab_def kpBoard_def)

theorem getBestMove_first_among_best_witness:
  "generateLegalMoves testCollab kpBoard
     = [Move (Position 0 0) (Position 0 1), Move (Position 7 1) (Position 7 2),
        Move (Position 7 1) (Position 7 3)]
   \<and> map (rootScore testCollab shallowEngine kpBoard) (generateLegalMoves testCollab kpBoard)
       = [150, 210, 210]
   \<and> fst (getBestMove testCollab 10 15 shallowEngine kpBoard)
       = Move (Position 7 1) (Position 7 2)
   \<and> (\<exists>pre post.
         generateLegalMoves testCollab kpBoard
           = pre @ Move (Position 7 1) (Position 7 2) # post
         \<and> (\<forall>m\<in>set pre. improves WHITE
                (rootScore testCollab shallowEngine kpBoard (Move (Position 7 1) (Position 7 2)))
                (rootScore testCollab shallowEngine kpBoard m))
         \<and> (\<forall>m\<in>set post. \<not> improves WHITE
                (rootScore testCollab shallowEngine kpBoard m)
                (rootScore testCollab shallowEngine kpBoard (Move (Position 7 1) (Position 7 2)))))"
proof -
  have ne: "generateLegalMoves testCollab kpBoard \<noteq> []"
    by (simp add: kpBoard_moves)
  have side: "getSideToMove testCollab kpBoard = WHITE"
    by (simp add: testCollab_def kpBoard_def)
  have best: "fst (getBestMove testCollab 10 15 shallowEngine kpBoard)
                = Move (Position 7 1) (Position 7 2)"
    by (simp add: kpBoard_search)
  from getBestMove_first_among_best [OF ne, of 10 15 shallowEngine]
  show ?thesis
    unfolding best side using kpBoard_moves kpBoard_scores best by blast
qed

text \<open>
  C6, as stated, fails: \<open>getBestMove\<close> returns the move alone and writes its diagnostics
  to \<open>std::cout\<close>.  In the position below it writes three lines.
\<close>

theorem getBestMove_output_counterexample:
  "generateLegalMoves testCollab kpBoard \<noteq> []
   \<and> snd (snd (getBestMove testCollab 10 15 shallowEngine kpBoard))
       = [OutStr ''Nodes searched: '', OutInt 3, Endl,
          OutStr ''Time taken: '', OutLong 5, OutStr '' ms'', Endl,
          OutStr ''Best move: '', OutStr ''h2h3'',
          OutStr '' with score: '', OutInt 210, Endl]
   \<and> snd (snd (getBestMove testCollab 10 15 shallowEngine kpBoard)) \<noteq> []"
  by (simp add: kpBoard_search kpBoard_moves)

text \<open>
  C6, amended: \<open>getBestMove\<close> returns the selected move alone.  When the root position
  has a legal move it writes its diagnostics to the standard output stream, in three
  lines: the node counter (the value \<open>getNodesSearched\<close> reads afterwards), the elapsed
  time in milliseconds between the two clock readings, and the notation of the returned
  move with its minimax score.
\<close>

theorem getBestMove_writes_diagnostics:
  assumes "generateLegalMoves C board \<noteq> []"
  shows "snd (snd (getBestMove C now0 now1 e board))
       = [OutStr ''Nodes searched: '',
          OutInt (getNodesSearched (fst (snd (getBestMove C now0 now1 e board)))), Endl,
          OutStr ''Time taken: '', OutLong (toMillis C (now1 - now0)), OutStr '' ms'', Endl,
          OutStr ''Best move: '', OutStr (toAlgebraic C (fst (getBestMove C now0 now1 e board))),
          OutStr '' with score: '',
          OutInt (rootScore C e board (fst (getBestMove C now0 now1 e board))), Endl]"
proof -
  from assms obtain first rest where ms: "generateLegalMoves C board = first # rest"
    by (cases "generateLegalMoves C board") simp_all
  from getBestMove_result [OF ms, of now0 now1 e]
  show ?thesis by (auto simp: getNodesSearched_def)
qed

theorem getBestMove_writes_diagnostics_witness:
  "generateLegalMoves testCollab kpBoard \<noteq> []
   \<and> snd (snd (getBestMove testCollab 10 15 shallowEngine kpBoard))
       = [OutStr ''Nodes searched: '',
          OutInt (getNodesSearched (fst (snd (getBestMove testCollab 10 15 shallowEngine kpBoard)))),
          Endl,
          OutStr ''Time taken: '', OutLong (toMillis testCollab (15 - 10)), OutStr '' ms'', Endl,
          OutStr ''Best move: '',
          OutStr (toAlgebraic testCollab (fst (getBestMove testCollab 10 15 shallowEngine kpBoard))),
          OutStr '' with score: '',
          OutInt (rootScore testCollab shallowEngine kpBoard
                    (fst (getBestMove testCollab 10 15 shallowEngine kpBoard))), Endl]
   \<and> getNodesSearched (fst (snd (getBestMove testCollab 10 15 shallowEngine kpBoard))) = 3
   \<and> toAlgebraic testCollab (fst (getBestMove testCollab 10 15 shallowEngine kpBoard)) = ''h2h3''"
proof -
  have ne: "generateLegalMoves testCollab kpBoard \<noteq> []"
    by (simp add: kpBoard_moves)
  have n: "getNodesSearched (fst (snd (getBestMove testCollab 10 15 shallowEngine kpBoard))) = 3"
    by (simp add: kpBoard_search getNodesSearched_def)
  have a: "toAlgebraic testCollab (fst (getBestMove testCollab 10 15 shallowEngine kpBoard))
             = ''h2h3''"
    unfolding kpBoard_search by code_simp
  from getBestMove_writes_diagnostics [OF ne, of 10 15 shallowEngine] ne n a
  show ?thesis by blast
qed

section \<open>The king-dependent terms without a king\<close>

lemma in_allSquares: "pos \<in> set allSquares \<longleftrightarrow> isValid pos"
proof (cases pos)
  case (Position f r)
  have "pos \<in> set allSquares \<longleftrightarrow> r \<in> {0..7} \<and> f \<in> {0..7}"
    unfolding Position allSquares_def by (simp add: image_iff) blast
  then show ?thesis
    by (simp add: Position isValid_def) linarith
qed

lemma scanBoard_nothing:
  assumes "\<And>pos. pos \<in> set allSquares \<Longrightarrow> body pos (getPiece C board pos) = (0, [])"
  shows "scanBoard C board body = (0, allSquares)"
proof -
  have 1: "map (\<lambda>pos. fst (body pos (getPiece C board pos))) allSquares
           = map (\<lambda>pos. 0) allSquares"
    using assms by (intro map_cong) simp_all
  have 2: "map (\<lambda>pos. pos # snd (body pos (getPiece C board pos))) allSquares
           = map (\<lambda>pos. [pos]) allSquares"
    using assms by (intro map_cong) simp_all
  show ?thesis
    unfolding scanBoard_def 1 2 by simp
qed

lemma earlyKingAt_no_king: "(\<And>c. piece \<noteq> Pc KING c) \<Longrightarrow> earlyKingAt pos piece = (0, [])"
  by (simp add: earlyKingAt_def split: Piece.splits PieceType.splits)

lemma castlingAt_no_king:
  "(\<And>c. piece \<noteq> Pc KING c) \<Longrightarrow> castlingAt C board pos piece = (0, [])"
  by (simp add: castlingAt_def split: Piece.splits PieceType.splits)

lemma foldl_no_king:
  "(\<And>pos. pos \<in> set xs \<Longrightarrow> getPiece C board pos \<noteq> Pc KING c) \<Longrightarrow>
   foldl (\<lambda>kingPos pos. if getPiece C board pos = Pc KING c then pos else kingPos) init xs
     = init"
  by (induction xs arbitrary: init) simp_all

lemma findKing_no_king:
  "(\<And>pos. isValid pos \<Longrightarrow> getPiece C board pos \<noteq> Pc KING c) \<Longrightarrow>
   findKing C board c = Position (- 1) (- 1)"
  unfolding findKing_def by (rule foldl_no_king) (simp add: in_allSquares)

lemma shield_not_found:
  "shieldWhite C board (Position (- 1) (- 1)) = (0, [])"
  "shieldBlack C board (Position (- 1) (- 1)) = (0, [])"
  by (simp_all add: shieldWhite_def shieldBlack_def isValid_def)

text \<open>
  C9: when no square of the board holds a king, the castling term, the king-pawn-shield
  term and the early-king-movement term are 0, and every position they pass to
  \<open>getPiece\<close> is on the board: the \<open>Position(-1, -1)\<close> that stands for "king not
  found" is tested with \<open>isValid\<close> and never queried.
\<close>

theorem missing_king_terms_zero:
  assumes "\<forall>pos c. isValid pos \<longrightarrow> getPiece C board pos \<noteq> Pc KING c"
  shows "fst (evaluateCastling C board) = 0
         \<and> fst (evaluateKingPawnShield C board) = 0
         \<and> fst (evaluateEarlyKingMovement C board) = 0
         \<and> (\<forall>pos \<in> set (snd (evaluateCastling C board))
                      \<union> set (snd (evaluateKingPawnShield C board))
                      \<union> set (snd (evaluateEarlyKingMovement C board)). isValid pos)"
proof -
  have nk: "\<And>pos c. pos \<in> set allSquares \<Longrightarrow> getPiece C board pos \<noteq> Pc KING c"
    using assms by (simp add: in_allSquares)
  have c: "evaluateCastling C board = (0, allSquares)"
    unfolding evaluateCastling_def
    by (rule scanBoard_nothing) (simp add: castlingAt_no_king nk)
  have k: "evaluateEarlyKingMovement C board = (0, allSquares)"
    unfolding evaluateEarlyKingMovement_def
    by (rule scanBoard_nothing) (simp add: earlyKingAt_no_king nk)
  have fk: "\<And>col. findKing C board col = Position (- 1) (- 1)"
    using assms by (simp add: findKing_no_king)
  have s: "evaluateKingPawnShield C board = (0, allSquares)
           \<or> evaluateKingPawnShield C board = (0, allSquares @ allSquares)"
    by (simp add: evaluateKingPawnShield_def Let_def fk shield_not_found)
  from s c k show ?thesis
    by (auto simp: in_allSquares)
qed

theorem missing_king_terms_zero_witness:
  "list_all (\<lambda>pos. getPiece testCollab kinglessBoard pos \<noteq> Pc KING WHITE
                   \<and> getPiece testCollab kinglessBoard pos \<noteq> Pc KING BLACK) allSquares
   \<and> fst (evaluateCastling testCollab kinglessBoard) = 0
   \<and> fst (evaluateKingPawnShield testCollab kinglessBoard) = 0
   \<and> fst (evaluateEarlyKingMovement testCollab kinglessBoard) = 0
   \<and> list_all isValid (snd (evaluateCastling testCollab kinglessBoard)
                        @ snd (evaluateKingPawnShield testCollab kinglessBoard)
                        @ snd (evaluateEarlyKingMovement testCollab kinglessBoard))"
proof -
  have nk: "\<forall>pos c. isValid pos \<longrightarrow> getPiece testCollab kinglessBoard pos \<noteq> Pc KING c"
    by (simp add: testCollab_def kinglessBoard_def pieceOn_def)
  then have "list_all (\<lambda>pos. getPiece testCollab kinglessBoard pos \<noteq> Pc KING WHITE
                   \<and> getPiece testCollab kinglessBoard pos \<noteq> Pc KING BLACK) allSquares"
    by (simp add: list_all_iff in_allSquares)
  with missing_king_terms_zero [OF nk] show ?thesis
    by (simp add: list_all_iff)
qed

section \<open>The knight penalties\<close>

text \<open>
  C8, as stated, fails: the 25 and the 20 penalty do not ask whether the pawn's square is
  attacked by the knight's side.  After 1.Nf3 e5 2.d3 e4 the pawn on e4 attacks the knight
  on f3 and is itself attacked by the pawn on d3; the 25 penalty is applied all the same,
  and the term is 1 - 25.
\<close>

theorem knight_threat_counterexample:
  "getPiece testCollab knightAttackedBoard (Position 5 2) = Pc KNIGHT WHITE
   \<and> getPiece testCollab knightAttackedBoard (Position 4 3) = Pc PAWN BLACK
   \<and> isUnderAttack testCollab knightAttackedBoard (Position 4 3) WHITE
   \<and> knightAdjacentPenalty testCollab knightAttackedBoard WHITE 5 2 (- 1) = 25
   \<and> evaluatePiecePositions testCollab knightAttackedBoard = - 24"
  by code_simp

text \<open>The three penalty branches and the center bonus, written out.\<close>

lemma knightPushPenalty_explicit:
  "knightPushPenalty C board c f r off =
     (if isValid (Position (f + off) (r - 2 * (if c = WHITE then - 1 else 1)))
         \<and> isValid (Position (f + off) (r - (if c = WHITE then - 1 else 1)))
         \<and> getPiece C board (Position (f + off) (r - 2 * (if c = WHITE then - 1 else 1)))
             = Pc PAWN (opposite c)
         \<and> getPiece C board (Position (f + off) (r - (if c = WHITE then - 1 else 1))) = NoPiece
         \<and> \<not> isUnderAttack C board (Position (f + off) (r - (if c = WHITE then - 1 else 1))) c
      then 15 else 0)"
  by (cases c)
     (simp_all add: knightPushPenalty_def Let_def isPawnOf_def isEmpty_def opposite_def)

lemma knightAdjacentPenalty_explicit:
  "knightAdjacentPenalty C board c f r off =
     (if isValid (Position (f + off) (r - (if c = WHITE then - 1 else 1)))
         \<and> getPiece C board (Position (f + off) (r - (if c = WHITE then - 1 else 1)))
             = Pc PAWN (opposite c)
      then 25 else 0)"
  by (cases c)
     (simp_all add: knightAdjacentPenalty_def Let_def isPawnOf_def isEmpty_def opposite_def)

lemma knightReadyPenalty_explicit:
  "knightReadyPenalty C board c f r off =
     (if isValid (Position (f + off) r)
         \<and> isValid (Position (f + off) (r + (if c = WHITE then - 1 else 1)))
         \<and> getPiece C board (Position (f + off) r) = Pc PAWN (opposite c)
         \<and> getPiece C board (Position (f + off) (r + (if c = WHITE then - 1 else 1))) = NoPiece
      then 20 else 0)"
  by (cases c)
     (simp_all add: knightReadyPenalty_def Let_def isPawnOf_def isEmpty_def opposite_def)

lemma knightPositionBonus_explicit:
  "knightPositionBonus f r = max 0 (3 - (min \<bar>f - 3\<bar> \<bar>f - 4\<bar> + min \<bar>r - 3\<bar> \<bar>r - 4\<bar>))"
proof -
  define x where "x = 3 - (min \<bar>f - 3\<bar> \<bar>f - 4\<bar> + min \<bar>r - 3\<bar> \<bar>r - 4\<bar>)"
  have "knightPositionBonus f r = (if x < 0 then 0 else x)"
    by (simp only: knightPositionBonus_def Let_def x_def)
  also have "\<dots> = max 0 x" by (simp add: max_def)
  finally show ?thesis by (simp only: x_def)
qed

text \<open>
  C8, amended: in the piece-placement term every knight contributes its center bonus
  less its penalties (a white knight; a black knight the negation), and the penalties are
  counted for each of the two adjacent files: 15 when an enemy pawn stands on that file
  two ranks from the knight on the side it advances from, the square between it and the
  knight's rank is empty and that square is not under attack by the knight's side; 25
  when an enemy pawn stands on that file one rank from the knight, where it attacks the
  knight; 20 when an enemy pawn stands on that file beside the knight and the square in
  front of it is empty.  Only the 15 penalty requires that the pawn's attacking square is
  not under attack by the knight's side: the 25 and the 20 penalty are applied whether or
  not those squares are attacked.  This holds for every board and every answer of the
  collaborator.
\<close>

theorem knight_penalties_in_term:
  "evaluatePiecePositions C board =
     (\<Sum>pos\<leftarrow>allSquares.
        case getPiece C board pos of
          Pc KNIGHT c \<Rightarrow>
            (let f = pfile pos; r = prank pos;
                 d = (if c = WHITE then - 1 else 1);
                 enemyPawn = Pc PAWN (opposite c);
                 penalties =
                   (\<Sum>off\<leftarrow>[- 1, 1].
                      (if isValid (Position (f + off) (r - 2 * d))
                          \<and> isValid (Position (f + off) (r - d))
                          \<and> getPiece C board (Position (f + off) (r - 2 * d)) = enemyPawn
                          \<and> getPiece C board (Position (f + off) (r - d)) = NoPiece
                          \<and> \<not> isUnderAttack C board (Position (f + off) (r - d)) c
                       then 15 else 0)
                    + (if isValid (Position (f + off) (r - d))
                          \<and> getPiece C board (Position (f + off) (r - d)) = enemyPawn
                       then 25 else 0))
                   + (\<Sum>off\<leftarrow>[- 1, 1].
                        (if isValid (Position (f + off) r)
                            \<and> isValid (Position (f + off) (r + d))
                            \<and> getPiece C board (Position (f + off) r) = enemyPawn
                            \<and> getPiece C board (Position (f + off) (r + d)) = NoPiece
                         then 20 else 0));
                 bonus = max 0 (3 - (min \<bar>f - 3\<bar> \<bar>f - 4\<bar> + min \<bar>r - 3\<bar> \<bar>r - 4\<bar>))
             in if c = WHITE then bonus - penalties else - bonus + penalties)
        | _ \<Rightarrow> 0)"
  by (simp only: evaluatePiecePositions_def knightTerm_def Let_def
        knightPushPenalty_explicit knightAdjacentPenalty_explicit
        knightReadyPenalty_explicit knightPositionBonus_explicit)

theorem knight_penalties_in_term_witness:
  "evaluatePiecePositions testCollab afterE4Nf6 = 14
   \<and> getPiece testCollab afterE4Nf6 (Position 5 5) = Pc KNIGHT BLACK
   \<and> getPiece testCollab afterE4Nf6 (Position 4 3) = Pc PAWN WHITE
   \<and> \<not> isUnderAttack testCollab afterE4Nf6 (Position 4 4) BLACK
   \<and> evaluatePiecePositions testCollab knightAttackedBoard = - 24
   \<and> getPiece testCollab knightAttackedBoard (Position 5 2) = Pc KNIGHT WHITE
   \<and> getPiece testCollab knightAttackedBoard (Position 4 3) = Pc PAWN BLACK
   \<and> isUnderAttack testCollab knightAttackedBoard (Position 4 3) WHITE"
proof -
  have a: "evaluatePiecePositions testCollab afterE4Nf6 = 14"
    by (subst knight_penalties_in_term) code_simp
  have b: "evaluatePiecePositions testCollab knightAttackedBoard = - 24"
    by (subst knight_penalties_in_term) code_simp
  have c: "getPiece testCollab afterE4Nf6 (Position 5 5) = Pc KNIGHT BLACK"
    "getPiece testCollab afterE4Nf6 (Position 4 3) = Pc PAWN WHITE"
    "\<not> isUnderAttack testCollab afterE4Nf6 (Position 4 4) BLACK"
    "getPiece testCollab knightAttackedBoard (Position 5 2) = Pc KNIGHT WHITE"
    "getPiece testCollab knightAttackedBoard (Position 4 3) = Pc PAWN BLACK"
    "isUnderAttack testCollab knightAttackedBoard (Position 4 3) WHITE"
    by code_simp+
  show ?thesis using a b c by simp
qed

section \<open>Doubled pawns and the colour mirror\<close>

text \<open>
  C7 at the position after 1.b3 a5 2.b4 axb4 (31 pieces): Black has pawns on b7 and on
  b4.  Scanning the b-file from Black's back rank meets the pawn on b7, which has not
  moved; the code scans from rank 0 for both colours, meets the pawn on b4, which is not
  attacked, and applies the 20 penalty.  In the mirrored position (after 1.a4 b5 2.axb5)
  the scan for White meets the pawn on b2 first and applies nothing.
\<close>

theorem pawn_double_move_black_scan:
  "pieceCount testCollab blackDoubledPawns = 31
   \<and> getPiece testCollab blackDoubledPawns (Position 1 6) = Pc PAWN BLACK
   \<and> getPiece testCollab blackDoubledPawns (Position 1 3) = Pc PAWN BLACK
   \<and> find (\<lambda>r. getPiece testCollab blackDoubledPawns (Position 1 r) = Pc PAWN BLACK)
        (rev [0..7]) = Some 6
   \<and> find (\<lambda>r. getPiece testCollab blackDoubledPawns (Position 1 r) = Pc PAWN BLACK)
        [0..7] = Some 3
   \<and> \<not> isUnderAttack testCollab blackDoubledPawns (Position 1 3) WHITE
   \<and> blackPawnFile testCollab blackDoubledPawns 1 = 20
   \<and> evaluatePawnDoubleMoves testCollab blackDoubledPawns = 20
   \<and> whitePawnFile testCollab whiteDoubledPawns 1 = 0
   \<and> evaluatePawnDoubleMoves testCollab whiteDoubledPawns = 0"
  by code_simp

lemma evaluate_whiteDoubledPawns: "evaluate testCollab whiteDoubledPawns = 260"
  by code_simp

lemma evaluate_blackDoubledPawns: "evaluate testCollab (mirrorBoard whiteDoubledPawns) = - 240"
  by code_simp

text \<open>
  C5 at the same pair of positions: the position after 1.a4 b5 2.axb5 evaluates to 260
  (material 100, piece development 160), its colour mirror to -240 and not to -260.  The
  difference is the 20 of the pawn double-move term above, which is 0 in the first
  position and 20 in its mirror.
\<close>

theorem evaluate_mirror_not_negated:
  "evaluate testCollab whiteDoubledPawns = 260
   \<and> evaluate testCollab (mirrorBoard whiteDoubledPawns) = - 240
   \<and> evaluate testCollab (mirrorBoard whiteDoubledPawns)
       \<noteq> - evaluate testCollab whiteDoubledPawns
   \<and> evaluatePawnDoubleMoves testCollab whiteDoubledPawns = 0
   \<and> evaluatePawnDoubleMoves testCollab (mirrorBoard whiteDoubledPawns) = 20"
proof -
  have "evaluatePawnDoubleMoves testCollab whiteDoubledPawns = 0"
    and "evaluatePawnDoubleMoves testCollab (mirrorBoard whiteDoubledPawns) = 20"
    by code_simp+
  then show ?thesis
    by (simp add: evaluate_whiteDoubledPawns evaluate_blackDoubledPawns)
qed

end
